theory Spec2Isabelle
  imports Main
begin

section \<open>The launcher \<^verbatim>\<open>bin/pyrdp-rdpmitm.py\<close>\<close>

text \<open>
  The launcher parses the command line, prepares the loggers, works out the target host
  and port, obtains a private key and a certificate, and opens the listener. Every call
  it makes to the outside world is written out here: the library calls of
  \<^verbatim>\<open>prepare_loggers\<close>, the directories made and the files opened, the records sent to the
  \<^verbatim>\<open>mitm\<close> logger, the command lines given to \<^verbatim>\<open>os.system\<close>, the calls of
  \<^verbatim>\<open>reactor.listenTCP\<close> and \<^verbatim>\<open>reactor.run\<close>. An exception or \<^verbatim>\<open>sys.exit\<close> is a value of
  \<open>py_error\<close>.
\<close>

subsection \<open>Python's \<^verbatim>\<open>int(str)\<close> and \<^verbatim>\<open>str.index\<close>\<close>

text \<open>
  \<^verbatim>\<open>int(s)\<close> in base 10, for a string of ASCII characters: the white space of C's
  \<^verbatim>\<open>isspace\<close> (tab, line feed, vertical tab, form feed, carriage return, space) is
  stripped at both ends, one sign may follow, then come decimal digits, where single
  underscores may stand between two digits. Anything else raises \<^verbatim>\<open>ValueError\<close> (here:
  \<open>None\<close>).
\<close>

definition is_space :: "char \<Rightarrow> bool" where
  "is_space c \<longleftrightarrow> of_char c \<in> set [9, 10, 11, 12, 13, 32 :: nat]"

definition is_digit :: "char \<Rightarrow> bool" where
  "is_digit c \<longleftrightarrow> (48 :: nat) \<le> of_char c \<and> of_char c \<le> (57 :: nat)"

definition digit_val :: "char \<Rightarrow> int" where
  "digit_val c = int (of_char c) - 48"

definition strip :: "string \<Rightarrow> string" where
  "strip s = rev (dropWhile is_space (rev (dropWhile is_space s)))"

fun digits_value :: "int \<Rightarrow> string \<Rightarrow> int option" where
  "digits_value acc [] = Some acc"
| "digits_value acc [c] = (if is_digit c then Some (10 * acc + digit_val c) else None)"
| "digits_value acc (c # d # ds) =
     (if is_digit c then digits_value (10 * acc + digit_val c) (d # ds)
      else if c = CHR ''_'' \<and> is_digit d then digits_value (10 * acc + digit_val d) ds
      else None)"

definition unsigned_int :: "string \<Rightarrow> int option" where
  "unsigned_int s =
     (case s of
        [] \<Rightarrow> None
      | c # cs \<Rightarrow> if is_digit c then digits_value (digit_val c) cs else None)"

definition py_int :: "string \<Rightarrow> int option" where
  "py_int s =
     (case strip s of
        [] \<Rightarrow> None
      | c # cs \<Rightarrow>
          if c = CHR ''-'' then map_option uminus (unsigned_int cs)
          else if c = CHR ''+'' then unsigned_int cs
          else unsigned_int (c # cs))"

text \<open>
  The same said as the library reference says it, as the set of texts \<^verbatim>\<open>int\<close> reads and
  the number each stands for, with no procedure: white space, an optional sign, one or
  more groups of digits with one underscore between two groups, white space; the number
  is the decimal value of the digits. Below, \<open>py_int\<close> is shown to compute exactly this.
\<close>

definition decimal :: "int \<Rightarrow> string \<Rightarrow> int" where
  "decimal acc ds = foldl (\<lambda>n c. 10 * n + digit_val c) acc ds"

definition digit_group :: "string \<Rightarrow> bool" where
  "digit_group g \<longleftrightarrow> g \<noteq> [] \<and> list_all is_digit g"

definition int_literal :: "string \<Rightarrow> int \<Rightarrow> bool" where
  "int_literal s n \<longleftrightarrow>
     (\<exists>before sign g gs after.
        s = before @ sign @ g @ concat (map ((#) CHR ''_'') gs) @ after \<and>
        list_all is_space before \<and> list_all is_space after \<and>
        (sign = [] \<or> sign = ''+'' \<or> sign = ''-'') \<and>
        digit_group g \<and> list_all digit_group gs \<and>
        n = (if sign = ''-'' then - decimal 0 (g @ concat gs) else decimal 0 (g @ concat gs)))"

text \<open>
  Where the model of \<^verbatim>\<open>int\<close> is Python's. From a string with characters outside ASCII
  Python reads more (other white space, the digits of other scripts), and an interpreter
  may be set to refuse an integer text of more than 640 digits, though never a shorter
  one. A string of at most 640 ASCII characters is neither.
\<close>

definition is_ascii :: "char \<Rightarrow> bool" where
  "is_ascii c \<longleftrightarrow> of_char c < (128 :: nat)"

definition ascii_text :: "string \<Rightarrow> bool" where
  "ascii_text s \<longleftrightarrow> list_all is_ascii s \<and> length s \<le> 640"

text \<open>
  \<^verbatim>\<open>s.index(c)\<close> for a one-character \<^verbatim>\<open>c\<close>: the position of its first occurrence;
  \<^verbatim>\<open>ValueError\<close> (here: \<open>None\<close>) when there is none.
\<close>

fun str_index :: "string \<Rightarrow> char \<Rightarrow> nat option" where
  "str_index [] c = None"
| "str_index (x # xs) c = (if x = c then Some 0 else map_option Suc (str_index xs c))"

subsection \<open>Errors, arguments, the factory\<close>

text \<open>
  \<open>Raised name\<close> is an exception that comes from outside the launcher (a library, the
  operating system, the reactor), by the name of its class.
\<close>

datatype py_error = ValueError | TypeError | SystemExit int | Raised string

text \<open>
  The levels of \<^verbatim>\<open>logging\<close> that \<^verbatim>\<open>--log-level\<close> may name (line 128), and the number
  \<^verbatim>\<open>getattr(logging, name)\<close> gives for each.
\<close>

datatype log_level = DEBUG | INFO | WARNING | ERROR | CRITICAL

fun level_number :: "log_level \<Rightarrow> int" where
  "level_number DEBUG = 10"
| "level_number INFO = 20"
| "level_number WARNING = 30"
| "level_number ERROR = 40"
| "level_number CRITICAL = 50"

text \<open>
  An option that \<^verbatim>\<open>argparse\<close> gives an integer default (\<^verbatim>\<open>--listen\<close>,
  \<^verbatim>\<open>--destination-port\<close>) holds that integer when it is left out and the string of the
  command line otherwise; \<^verbatim>\<open>int(...)\<close> is applied to either.
\<close>

datatype int_or_str = IntV int | StrV string

fun int_of :: "int_or_str \<Rightarrow> int option" where
  "int_of (IntV n) = Some n"
| "int_of (StrV s) = py_int s"

fun ascii_value :: "int_or_str \<Rightarrow> bool" where
  "ascii_value (IntV n) = True"
| "ascii_value (StrV s) = ascii_text s"

text \<open>
  The fields of \<^verbatim>\<open>args\<close> that \<^verbatim>\<open>main\<close> reads, as \<^verbatim>\<open>parse_args\<close> returns them (line 130).
  \<^verbatim>\<open>--log-level\<close> is one of the five names, \<^verbatim>\<open>INFO\<close> when the option is left out, and
  \<^verbatim>\<open>None\<close> when \<^verbatim>\<open>-L\<close> is given with no value (\<^verbatim>\<open>nargs="?"\<close> without \<^verbatim>\<open>const\<close>).
\<close>

record args =
  args_target :: string
  args_listen :: int_or_str
  args_destination_ip :: "string option"
  args_destination_port :: int_or_str
  args_private_key :: "string option"
  args_certificate :: "string option"
  args_username :: "string option"
  args_password :: "string option"
  args_log_level :: "log_level option"

text \<open>The three arguments that go through \<^verbatim>\<open>int\<close> are within the model of \<^verbatim>\<open>int\<close>.\<close>

definition ascii_args :: "args \<Rightarrow> bool" where
  "ascii_args a \<longleftrightarrow>
     ascii_text (args_target a) \<and> ascii_value (args_listen a) \<and>
     ascii_value (args_destination_port a)"

record MITMServerFactory =
  targetHost :: string
  targetPort :: int
  privateKeyFileName :: string
  certificateFileName :: string
  destination_ip :: "string option"
  destination_port :: int
  username :: "string option"
  password :: "string option"

text \<open>
  \<^verbatim>\<open>buildProtocol\<close> constructs \<^verbatim>\<open>MITMServer\<close>, whose code is not part of the launcher;
  what the launcher decides is the argument list of that constructor call.
\<close>

record MITMServer_args =
  friendlyName :: string
  server_targetHost :: string
  server_targetPort :: int
  server_certificateFileName :: string
  server_privateKeyFileName :: string
  server_destination_ip :: "string option"
  server_destination_port :: int
  replacementUsername :: "string option"
  replacementPassword :: "string option"

definition buildProtocol :: "string \<Rightarrow> MITMServerFactory \<Rightarrow> MITMServer_args" where
  \<comment> \<open>the first argument is what \<^verbatim>\<open>names.get_first_name()\<close> returns\<close>
  "buildProtocol first_name self =
     \<lparr>friendlyName = first_name,
      server_targetHost = targetHost self,
      server_targetPort = targetPort self,
      server_certificateFileName = certificateFileName self,
      server_privateKeyFileName = privateKeyFileName self,
      server_destination_ip = destination_ip self,
      server_destination_port = destination_port self,
      replacementUsername = username self,
      replacementPassword = password self\<rparr>"

subsection \<open>The world the launcher acts on\<close>

datatype log_arg = StrArg string | IntArg int

text \<open>
  The calls \<^verbatim>\<open>prepare_loggers\<close> makes into \<^verbatim>\<open>pyrdp.core.logging\<close>, whose code is not part
  of the launcher: \<^verbatim>\<open>log.prepare_pyrdp_logger(logLevel)\<close>,
  \<^verbatim>\<open>log.prepare_ssl_session_logger()\<close>, \<^verbatim>\<open>log.get_formatter()\<close>, \<^verbatim>\<open>log.get_logger()\<close> and
  \<^verbatim>\<open>JSONFormatter()\<close>.
\<close>

datatype library_call =
    Prepare_pyrdp_logger int
  | Prepare_ssl_session_logger
  | Get_formatter
  | Get_logger
  | New_JSONFormatter

datatype effect =
    Log log_level string "(string \<times> log_arg) list"
  | Library library_call
  | MakeDirs string
  | OpenFile string
  | System string
  | ListenTCP int MITMServerFactory
  | ReactorRun

text \<open>
  \<open>files\<close> are the paths for which \<^verbatim>\<open>os.path.exists\<close> answers true (a path is its
  string); \<open>trace\<close> lists the calls made so far, oldest first, whether they returned or
  raised. \<open>Log\<close> is a call of \<^verbatim>\<open>mitm_log.info\<close> or \<^verbatim>\<open>mitm_log.error\<close>.
\<close>

record world =
  files :: "string set"
  trace :: "effect list"

text \<open>
  What the launcher cannot know: the directory \<^verbatim>\<open>appdirs.user_config_dir("pyrdp", "pyrdp")\<close>
  names; what a command run by \<^verbatim>\<open>os.system\<close> returns and leaves on disk; whether a
  library call raises, and what it leaves on disk; whether \<^verbatim>\<open>os.makedirs\<close>, the opening
  of a log file or \<^verbatim>\<open>reactor.listenTCP\<close> raises.
\<close>

record env =
  user_config_dir :: string
  os_system :: "string \<Rightarrow> string set \<Rightarrow> int \<times> string set"
  library :: "library_call \<Rightarrow> string set \<Rightarrow> py_error option \<times> string set"
  makedirs_error :: "string \<Rightarrow> string set \<Rightarrow> py_error option"
  open_error :: "string \<Rightarrow> string set \<Rightarrow> py_error option"
  listenTCP_error :: "int \<Rightarrow> string set \<Rightarrow> py_error option"

definition emit :: "effect \<Rightarrow> world \<Rightarrow> world" where
  "emit x w = w\<lparr>trace := trace w @ [x]\<rparr>"

text \<open>
  A statement that may raise, run in a world: \<open>Some\<close> exception or \<open>None\<close>, and the world
  it leaves. \<open>and_then\<close> runs the next statement unless the first one raised.
\<close>

type_synonym statement = "world \<Rightarrow> py_error option \<times> world"

definition and_then :: "py_error option \<times> world \<Rightarrow> statement \<Rightarrow> py_error option \<times> world" where
  "and_then r f = (case r of (None, w) \<Rightarrow> f w | (Some err, w) \<Rightarrow> (Some err, w))"

definition library_statement :: "env \<Rightarrow> library_call \<Rightarrow> statement" where
  "library_statement e c w =
     (let (err, files') = library e c (files w)
      in (err, emit (Library c) (w\<lparr>files := files'\<rparr>)))"

text \<open>\<^verbatim>\<open>os.makedirs(path)\<close>: the directory exists afterwards, unless the call raises.\<close>

definition makedirs :: "env \<Rightarrow> string \<Rightarrow> statement" where
  "makedirs e path w =
     (case makedirs_error e path (files w) of
        Some err \<Rightarrow> (Some err, emit (MakeDirs path) w)
      | None \<Rightarrow> (None, emit (MakeDirs path) (w\<lparr>files := insert path (files w)\<rparr>)))"

text \<open>
  A \<^verbatim>\<open>logging.FileHandler\<close> opens its file for appending when it is constructed: the file
  exists afterwards, unless the opening raises.
\<close>

definition open_file :: "env \<Rightarrow> string \<Rightarrow> statement" where
  "open_file e path w =
     (case open_error e path (files w) of
        Some err \<Rightarrow> (Some err, emit (OpenFile path) w)
      | None \<Rightarrow> (None, emit (OpenFile path) (w\<lparr>files := insert path (files w)\<rparr>)))"

subsection \<open>\<^verbatim>\<open>getSSLPaths\<close>, \<^verbatim>\<open>generateCertificate\<close>, \<^verbatim>\<open>prepare_loggers\<close>, \<^verbatim>\<open>handleKeyAndCertificates\<close>\<close>

definition getSSLPaths :: "env \<Rightarrow> world \<Rightarrow> (py_error + string \<times> string) \<times> world" where
  "getSSLPaths e w =
     (let config = user_config_dir e
      in case (if config \<notin> files w then makedirs e config w else (None, w)) of
           (Some err, w') \<Rightarrow> (Inl err, w')
         | (None, w') \<Rightarrow>
             (let key = config @ ''/private_key.pem'';
                  certificate = config @ ''/certificate.pem''
              in (Inr (key, certificate), w')))"

definition openssl_command :: "string \<Rightarrow> string \<Rightarrow> string" where
  "openssl_command keyPath certificatePath =
     ''openssl req -newkey rsa:2048 -nodes -keyout '' @ keyPath @
     '' -x509 -days 365 -out '' @ certificatePath @
     '' -subj '/CN=www.example.com/O=PYRDP/C=US' 2>/dev/null''"

definition generateCertificate :: "env \<Rightarrow> string \<Rightarrow> string \<Rightarrow> world \<Rightarrow> bool \<times> world" where
  "generateCertificate e keyPath certificatePath w =
     (let cmd = openssl_command keyPath certificatePath;
          (result, files') = os_system e cmd (files w)
      in (result = 0, emit (System cmd) (w\<lparr>files := files'\<rparr>)))"

text \<open>
  \<^verbatim>\<open>prepare_loggers\<close>, lines 70 to 105. The calls of the standard \<^verbatim>\<open>logging\<close> module
  that only configure loggers inside the process (\<^verbatim>\<open>getLogger\<close>, \<^verbatim>\<open>setLevel\<close>,
  \<^verbatim>\<open>StreamHandler\<close>, \<^verbatim>\<open>setFormatter\<close>, \<^verbatim>\<open>addHandler\<close>) leave the world as it is and are
  not listed.
\<close>

definition prepare_loggers :: "env \<Rightarrow> int \<Rightarrow> statement" where
  "prepare_loggers e logLevel w =
     and_then (library_statement e (Prepare_pyrdp_logger logLevel) w) (\<lambda>w.
     and_then (library_statement e Prepare_ssl_session_logger w) (\<lambda>w.
     and_then (if ''log'' \<notin> files w then makedirs e ''log'' w else (None, w)) (\<lambda>w.
     and_then (library_statement e Get_formatter w) (\<lambda>w.
     and_then (open_file e ''log/mitm.log'' w) (\<lambda>w.
     and_then (library_statement e Get_logger w) (\<lambda>w.
     and_then (library_statement e New_JSONFormatter w) (\<lambda>w.
     open_file e ''log/mitm.json'' w)))))))"

definition handleKeyAndCertificates :: "env \<Rightarrow> string \<Rightarrow> string \<Rightarrow> world \<Rightarrow> world" where
  "handleKeyAndCertificates e certificate key w =
     (if key \<in> files w \<and> certificate \<in> files w then
        emit (Log INFO ''Using existing certificate: %(certificate)s''
                [(''certificate'', StrArg certificate)])
          (emit (Log INFO ''Using existing private key: %(privateKey)s''
                   [(''privateKey'', StrArg key)]) w)
      else
        (let w1 = emit (Log INFO ''Generating a private key and certificate for SSL connections'' []) w;
             (ok, w2) = generateCertificate e key certificate w1
         in if ok then
              emit (Log INFO ''Certificate path: %(certificatePath)s''
                      [(''certificatePath'', StrArg certificate)])
                (emit (Log INFO ''Private key path: %(privateKeyPath)s''
                         [(''privateKeyPath'', StrArg key)]) w2)
            else
              emit (Log ERROR
                ''Generation failed. Please provide the private key and certificate with -k and -c''
                []) w2))"

subsection \<open>\<^verbatim>\<open>main\<close>\<close>

text \<open>Lines 138 to 144: the host and the port of the target.\<close>

definition parse_target :: "string \<Rightarrow> py_error + string \<times> int" where
  "parse_target target =
     (if CHR '':'' \<in> set target then
        (case str_index target CHR '':'' of
           None \<Rightarrow> Inl ValueError
         | Some i \<Rightarrow>
             (case py_int (drop (i + 1) target) of
                None \<Rightarrow> Inl ValueError
              | Some port \<Rightarrow> Inr (take i target, port)))
      else Inr (target, 3389))"

text \<open>Lines 145 to 152: which key and certificate paths are used.\<close>

definition key_and_certificate ::
  "env \<Rightarrow> args \<Rightarrow> world \<Rightarrow> (py_error + string \<times> string) \<times> world" where
  "key_and_certificate e a w =
     (if (args_private_key a = None) \<noteq> (args_certificate a = None) then
        (Inl (SystemExit 1),
         emit (Log ERROR ''You must provide both the private key and the certificate'' []) w)
      else
        (case (args_private_key a, args_certificate a) of
           (Some k, Some c) \<Rightarrow> (Inr (k, c), w)
         | _ \<Rightarrow>
             (case getSSLPaths e w of
                (Inl err, w1) \<Rightarrow> (Inl err, w1)
              | (Inr (key, certificate), w1) \<Rightarrow>
                  (Inr (key, certificate), handleKeyAndCertificates e certificate key w1))))"

text \<open>
  \<^verbatim>\<open>main\<close> from line 131 to the point where the arguments of \<^verbatim>\<open>reactor.listenTCP\<close> are
  evaluated (lines 153 to 155): the port to listen on and the factory, or the exception
  that ended the run before. \<^verbatim>\<open>getattr(logging, None)\<close> raises \<^verbatim>\<open>TypeError\<close>.
\<close>

definition main_arguments ::
  "env \<Rightarrow> args \<Rightarrow> world \<Rightarrow> (py_error + int \<times> MITMServerFactory) \<times> world" where
  "main_arguments e a w =
     (case args_log_level a of
        None \<Rightarrow> (Inl TypeError, w)
      | Some level \<Rightarrow>
          (case prepare_loggers e (level_number level) w of
             (Some err, w0) \<Rightarrow> (Inl err, w0)
           | (None, w0) \<Rightarrow>
               (case parse_target (args_target a) of
                  Inl err \<Rightarrow> (Inl err, w0)
                | Inr (host, port) \<Rightarrow>
                    (case key_and_certificate e a w0 of
                       (Inl err, w1) \<Rightarrow> (Inl err, w1)
                     | (Inr (key, certificate), w1) \<Rightarrow>
                         (case int_of (args_listen a) of
                            None \<Rightarrow> (Inl ValueError, w1)
                          | Some listenPort \<Rightarrow>
                              (case int_of (args_destination_port a) of
                                 None \<Rightarrow> (Inl ValueError, w1)
                               | Some destinationPort \<Rightarrow>
                                   (Inr (listenPort,
                                         \<lparr>targetHost = host,
                                          targetPort = port,
                                          privateKeyFileName = key,
                                          certificateFileName = certificate,
                                          destination_ip = args_destination_ip a,
                                          destination_port = destinationPort,
                                          username = args_username a,
                                          password = args_password a\<rparr>),
                                    w1)))))))"

text \<open>
  \<^verbatim>\<open>main\<close>, lines 131 to 157. \<^verbatim>\<open>reactor.run()\<close> does not return while the server lives;
  the model records that it was entered.
\<close>

definition main :: "env \<Rightarrow> args \<Rightarrow> world \<Rightarrow> (py_error + unit) \<times> world" where
  "main e a w =
     (case main_arguments e a w of
        (Inl err, w1) \<Rightarrow> (Inl err, w1)
      | (Inr (listenPort, factory), w1) \<Rightarrow>
          (let w2 = emit (ListenTCP listenPort factory) w1
           in case listenTCP_error e listenPort (files w1) of
                Some err \<Rightarrow> (Inl err, w2)
              | None \<Rightarrow>
                  (Inr (),
                   emit ReactorRun
                     (emit (Log INFO ''MITM Server listening on port %(port)d''
                              [(''port'', IntArg listenPort)]) w2))))"

text \<open>The calls of \<^verbatim>\<open>reactor.listenTCP\<close> and of \<^verbatim>\<open>os.system\<close> in a trace.\<close>

fun is_listen :: "effect \<Rightarrow> bool" where
  "is_listen (ListenTCP p f) = True"
| "is_listen x = False"

fun is_system :: "effect \<Rightarrow> bool" where
  "is_system (System c) = True"
| "is_system x = False"

text \<open>What a run has added to the trace: no call of \<^verbatim>\<open>reactor.listenTCP\<close> or \<^verbatim>\<open>os.system\<close>.\<close>

definition quiet :: "world \<Rightarrow> world \<Rightarrow> bool" where
  "quiet w w' \<longleftrightarrow>
     (\<exists>new. trace w' = trace w @ new \<and> filter is_listen new = [] \<and> filter is_system new = [])"

subsection \<open>Two outside worlds to run the launcher in\<close>

text \<open>
  A machine whose \<^verbatim>\<open>openssl\<close> fails (\<^verbatim>\<open>os.system\<close> returns the wait status 256 and leaves
  the disk as it was) and where nothing else raises, with and without a key and a
  certificate in the configuration directory, and a command line that names the target
  only.
\<close>

definition openssl_fails :: "string \<Rightarrow> string set \<Rightarrow> int \<times> string set" where
  "openssl_fails cmd fs = (256, fs)"

definition home_env :: env where
  "home_env =
     \<lparr>user_config_dir = ''/root/.config/pyrdp'', os_system = openssl_fails,
      library = (\<lambda>c fs. (None, fs)),
      makedirs_error = (\<lambda>path fs. None),
      open_error = (\<lambda>path fs. None),
      listenTCP_error = (\<lambda>port fs. None)\<rparr>"

definition home_world :: world where
  "home_world =
     \<lparr>files = {''/root/.config/pyrdp'', ''/root/.config/pyrdp/private_key.pem'',
               ''/root/.config/pyrdp/certificate.pem''},
      trace = []\<rparr>"

definition example_args :: args where
  "example_args =
     \<lparr>args_target = ''129.168.0.2:3390'',
      args_listen = IntV 3389,
      args_destination_ip = None,
      args_destination_port = IntV 3000,
      args_private_key = None,
      args_certificate = None,
      args_username = None,
      args_password = None,
      args_log_level = Some INFO\<rparr>"

text \<open>The factory \<^verbatim>\<open>main\<close> builds from that command line on this machine.\<close>

definition example_factory :: MITMServerFactory where
  "example_factory =
     \<lparr>targetHost = ''129.168.0.2'', targetPort = 3390,
      privateKeyFileName = ''/root/.config/pyrdp/private_key.pem'',
      certificateFileName = ''/root/.config/pyrdp/certificate.pem'',
      destination_ip = None, destination_port = 3000,
      username = None, password = None\<rparr>"

text \<open>What \<^verbatim>\<open>prepare_loggers\<close> adds to the trace on this machine.\<close>

definition loggers_trace :: "effect list" where
  "loggers_trace =
     [Library (Prepare_pyrdp_logger 20), Library Prepare_ssl_session_logger, MakeDirs ''log'',
      Library Get_formatter, OpenFile ''log/mitm.log'', Library Get_logger,
      Library New_JSONFormatter, OpenFile ''log/mitm.json'']"


section \<open>The Relay Coordinator, as the specification describes it\<close>

text \<open>
  The launcher hands every connection to \<^verbatim>\<open>MITMServer\<close> (\<^verbatim>\<open>pyrdp.mitm.server\<close>), whose
  code is not among the sources. What follows is the part of it that decides when a
  session is connected and when it ends, written from the specification: the two leg
  state machines (4.3), the coordinator that owns them (4.4) and the error taxonomy (7).
  What is relayed between the legs, the interception pipeline and the byte-level codec
  are not part of this model. Where the specification names two places for one check
  (a difference between the two legs' channel lists is a \<^verbatim>\<open>Reject\<close> in 4.3 and a
  \<^verbatim>\<open>NegotiationMismatch\<close> in 4.4), the coordinator's is taken, since a leg's
  \<^verbatim>\<open>advance\<close> sees one leg only. The coordinator of 5 also holds a leg back that is a step
  ahead of the other; the model lets either leg move, which only adds runs.
\<close>

text \<open>Modelled from the spec: the two sides of a session (3, Leg).\<close>

datatype leg_id = ClientLeg | ServerLeg

text \<open>Modelled from the spec: the states of a leg state machine, in the order of 4.3.\<close>

datatype leg_state =
    AwaitingNegotiation
  | AwaitingMCSConnect
  | AwaitingSecurityExchange
  | AwaitingClientInfo
  | AwaitingLicensing
  | AwaitingDemandActive
  | Connected
  | Closed

text \<open>Modelled from the spec: a channel descriptor is a name, a numeric id and flags (3).\<close>

record channel_descriptor =
  channel_name :: string
  channel_id :: nat
  channel_flags :: nat

text \<open>
  Modelled from the spec: the capability set of a leg (4.3), which the coordinator only
  compares; its content is left open.
\<close>

type_synonym capability_set = "nat list"

text \<open>
  Modelled from the spec: the PDU variants of 3, each with the fields this model reads.
  A request and its response (Negotiation Request/Response, MCS Connect Initial/Response,
  Demand/Confirm Active) are one variant: a leg sees the one its peer sends.
\<close>

datatype pdu =
    Negotiation
  | MCSConnect "channel_descriptor list"
  | SecurityExchange
  | ClientInfo
  | Licensing
  | DemandActive capability_set
  | VirtualChannelData nat
  | InputEvent
  | Update

text \<open>
  Modelled from the spec: \<^verbatim>\<open>advance(currentState, PDU)\<close> of 4.3, without the emitted PDU.
  \<open>None\<close> is \<^verbatim>\<open>Reject\<close>: a PDU out of order. \<open>Connected\<close> and \<open>Closed\<close> accept nothing.
\<close>

fun advance :: "leg_state \<Rightarrow> pdu \<Rightarrow> leg_state option" where
  "advance AwaitingNegotiation Negotiation = Some AwaitingMCSConnect"
| "advance AwaitingMCSConnect (MCSConnect channels) = Some AwaitingSecurityExchange"
| "advance AwaitingSecurityExchange SecurityExchange = Some AwaitingClientInfo"
| "advance AwaitingClientInfo ClientInfo = Some AwaitingLicensing"
| "advance AwaitingLicensing Licensing = Some AwaitingDemandActive"
| "advance AwaitingDemandActive (DemandActive caps) = Some Connected"
| "advance st p = None"

text \<open>
  Modelled from the spec: a leg holds its state and the channel list and capability set
  extracted during \<open>AwaitingMCSConnect\<close> and \<open>AwaitingDemandActive\<close> (3 and 4.3).
\<close>

record leg =
  state :: leg_state
  channel_list :: "channel_descriptor list option"
  capabilities :: "capability_set option"

text \<open>Modelled from the spec: the parameters a PDU carries are recorded on the leg (4.3).\<close>

fun record_parameters :: "pdu \<Rightarrow> leg \<Rightarrow> leg" where
  "record_parameters (MCSConnect channels) l = l\<lparr>channel_list := Some channels\<rparr>"
| "record_parameters (DemandActive caps) l = l\<lparr>capabilities := Some caps\<rparr>"
| "record_parameters p l = l"

text \<open>
  Modelled from the spec: the error taxonomy of 7, with the failing leg where one leg
  fails; \<open>Disconnected\<close> is a clean or abrupt close of a leg by its peer (4.4).
\<close>

datatype termination_reason =
    Malformed leg_id
  | Reject leg_id
  | NegotiationFailed leg_id
  | NegotiationMismatch
  | NegotiationTimeout leg_id
  | TransportError leg_id
  | Disconnected leg_id

text \<open>
  Modelled from the spec: what finalizing a session does (4.4 and 7): the termination
  reason is attached to the session, the recording is flushed, the live-stream sink is
  told of the termination.
\<close>

datatype finalization_step =
    RecordReason termination_reason
  | FlushRecording
  | NotifyLiveStream

text \<open>
  Modelled from the spec: a session owns its two legs and has a termination reason,
  empty until it is closed (3). \<open>finalized\<close> lists the finalization steps taken so far.
\<close>

record session =
  client_leg :: leg
  server_leg :: leg
  termination_reason :: "termination_reason option"
  finalized :: "finalization_step list"

text \<open>Modelled from the spec: a new leg is at the start of the sequence of 4.3.\<close>

definition new_leg :: leg where
  "new_leg = \<lparr>state = AwaitingNegotiation, channel_list = None, capabilities = None\<rparr>"

text \<open>Modelled from the spec: a new session owns two new legs and has not ended (3).\<close>

definition new_session :: session where
  "new_session =
     \<lparr>client_leg = new_leg, server_leg = new_leg, termination_reason = None, finalized = []\<rparr>"

text \<open>
  Modelled from the spec: the coordinator owns both legs (4.4, 9) and reads or writes
  either of them by its side.
\<close>

fun leg_of :: "session \<Rightarrow> leg_id \<Rightarrow> leg" where
  "leg_of s ClientLeg = client_leg s"
| "leg_of s ServerLeg = server_leg s"

text \<open>Modelled from the spec: writing one leg of the session (4.4, 9).\<close>

fun set_leg :: "leg_id \<Rightarrow> leg \<Rightarrow> session \<Rightarrow> session" where
  "set_leg ClientLeg l s = s\<lparr>client_leg := l\<rparr>"
| "set_leg ServerLeg l s = s\<lparr>server_leg := l\<rparr>"

text \<open>Modelled from the spec: the opposite leg (4.4).\<close>

fun other :: "leg_id \<Rightarrow> leg_id" where
  "other ClientLeg = ServerLeg"
| "other ServerLeg = ClientLeg"

text \<open>
  Modelled from the spec: ending a session (3, 4.4, 7). The reason is attached, the
  session is finalized and both legs are closed.
\<close>

definition terminate :: "termination_reason \<Rightarrow> session \<Rightarrow> session" where
  "terminate reason s =
     s\<lparr>client_leg := (client_leg s)\<lparr>state := Closed\<rparr>,
       server_leg := (server_leg s)\<lparr>state := Closed\<rparr>,
       termination_reason := Some reason,
       finalized := finalized s @ [RecordReason reason, FlushRecording, NotifyLiveStream]\<rparr>"

text \<open>
  Modelled from the spec: the coordinator validates the channel lists and capability sets
  recorded on the two legs equal before either leg becomes \<open>Connected\<close> (4.3, 4.4).
\<close>

definition legs_agree :: "session \<Rightarrow> bool" where
  "legs_agree s \<longleftrightarrow>
     channel_list (client_leg s) = channel_list (server_leg s) \<and>
     capabilities (client_leg s) = capabilities (server_leg s)"

text \<open>
  Modelled from the spec: the transition to pass-through mode (4.4) makes both legs
  \<open>Connected\<close> at once.
\<close>

definition connect :: "session \<Rightarrow> session" where
  "connect s =
     s\<lparr>client_leg := (client_leg s)\<lparr>state := Connected\<rparr>,
       server_leg := (server_leg s)\<lparr>state := Connected\<rparr>\<rparr>"

text \<open>Modelled from the spec: pass-through mode is both legs \<open>Connected\<close> (4.4).\<close>

definition pass_through :: "session \<Rightarrow> bool" where
  "pass_through s \<longleftrightarrow>
     state (client_leg s) = Connected \<and> state (server_leg s) = Connected"

text \<open>Modelled from the spec: channel ids route application data by name (3).\<close>

definition id_to_name :: "leg \<Rightarrow> nat \<Rightarrow> string option" where
  "id_to_name l =
     (case channel_list l of
        None \<Rightarrow> Map.empty
      | Some channels \<Rightarrow> map_of (map (\<lambda>c. (channel_id c, channel_name c)) channels))"

text \<open>
  Modelled from the spec: a PDU decoded from a leg (4.3, 4.4). In pass-through mode
  application PDUs are relayed, which leaves the session as it is, but data for a channel
  id that was not negotiated, or a connection-sequence PDU, is rejected (8). Before that
  the PDU is run through the leg's state machine: a rejected PDU ends the session; an
  accepted one is recorded and the leg moves on. A leg that has completed its sequence
  waits in \<open>AwaitingDemandActive\<close>, its capability set recorded, until the other leg has
  done so too; then the coordinator connects both legs if they agree and ends the
  session with \<open>NegotiationMismatch\<close> if they do not.
\<close>

definition receive :: "leg_id \<Rightarrow> pdu \<Rightarrow> session \<Rightarrow> session" where
  "receive l p s =
     (if pass_through s then
        (case p of
           VirtualChannelData cid \<Rightarrow>
             if id_to_name (leg_of s l) cid = None then terminate (Reject l) s else s
         | InputEvent \<Rightarrow> s
         | Update \<Rightarrow> s
         | _ \<Rightarrow> terminate (Reject l) s)
      else
        (case advance (state (leg_of s l)) p of
           None \<Rightarrow> terminate (Reject l) s
         | Some next \<Rightarrow>
             if next = Connected then
               (let s' = set_leg l (record_parameters p (leg_of s l)) s
                in if capabilities (leg_of s' (other l)) = None then s'
                   else if legs_agree s' then connect s'
                   else terminate NegotiationMismatch s')
             else set_leg l ((record_parameters p (leg_of s l))\<lparr>state := next\<rparr>) s))"

text \<open>
  Modelled from the spec: the ways a leg fails other than by a rejected PDU (4.1, 4.2, 5
  and 7), and the reason each leaves on the session.
\<close>

datatype failure = MalformedInput | SecurityNegotiation | StepTimeout | SocketError

text \<open>
  Modelled from the spec: the termination reason a failure of a leg leaves (7), with
  the failing leg identified (4.2).
\<close>

fun reason_of :: "failure \<Rightarrow> leg_id \<Rightarrow> termination_reason" where
  "reason_of MalformedInput l = Malformed l"
| "reason_of SecurityNegotiation l = NegotiationFailed l"
| "reason_of StepTimeout l = NegotiationTimeout l"
| "reason_of SocketError l = TransportError l"

text \<open>Modelled from the spec: what the coordinator reacts to (4.4).\<close>

datatype event =
    Received leg_id pdu
  | Failed leg_id failure
  | StreamClosed leg_id

text \<open>
  Modelled from the spec: one step of the coordinator (4.4). A closed session accepts
  nothing more (4.3: \<open>Closed\<close> is absorbing). A failure or a close of either leg ends the
  session.
\<close>

definition coordinate :: "session \<Rightarrow> event \<Rightarrow> session" where
  "coordinate s ev =
     (if termination_reason s \<noteq> None then s
      else
        (case ev of
           Received l p \<Rightarrow> receive l p s
         | Failed l f \<Rightarrow> terminate (reason_of f l) s
         | StreamClosed l \<Rightarrow> terminate (Disconnected l) s))"

text \<open>Modelled from the spec: a session is driven by the events of its two legs, in order.\<close>

fun run :: "session \<Rightarrow> event list \<Rightarrow> session" where
  "run s [] = s"
| "run s (ev # evs) = run (coordinate s ev) evs"

subsection \<open>A connection sequence to run the coordinator on\<close>

text \<open>
  The scenario of section 8 of the specification: both legs go through the connection
  sequence, each with its own channel list, and end with the same capability set.
\<close>

definition two_channels :: "channel_descriptor list" where
  "two_channels =
     [\<lparr>channel_name = ''cliprdr'', channel_id = 1004, channel_flags = 0\<rparr>,
      \<lparr>channel_name = ''rdpdr'', channel_id = 1005, channel_flags = 0\<rparr>]"

definition connection_sequence ::
  "channel_descriptor list \<Rightarrow> channel_descriptor list \<Rightarrow> event list" where
  "connection_sequence client_channels server_channels =
     [Received ClientLeg Negotiation, Received ServerLeg Negotiation,
      Received ClientLeg (MCSConnect client_channels),
      Received ServerLeg (MCSConnect server_channels),
      Received ClientLeg SecurityExchange, Received ServerLeg SecurityExchange,
      Received ClientLeg ClientInfo, Received ServerLeg ClientInfo,
      Received ServerLeg Licensing, Received ClientLeg Licensing,
      Received ServerLeg (DemandActive [16]), Received ClientLeg (DemandActive [16])]"

subsection \<open>The three kinds of session\<close>

text \<open>
  For the proofs: a session is still negotiating, or in pass-through mode, or ended.
  Every step of the coordinator leads from one of the three to one of the three.
\<close>

definition negotiating :: "session \<Rightarrow> bool" where
  "negotiating s \<longleftrightarrow>
     termination_reason s = None \<and> finalized s = [] \<and>
     state (client_leg s) \<noteq> Connected \<and> state (client_leg s) \<noteq> Closed \<and>
     state (server_leg s) \<noteq> Connected \<and> state (server_leg s) \<noteq> Closed \<and>
     (capabilities (client_leg s) = None \<or> capabilities (server_leg s) = None)"

definition passing :: "session \<Rightarrow> bool" where
  "passing s \<longleftrightarrow>
     termination_reason s = None \<and> finalized s = [] \<and>
     state (client_leg s) = Connected \<and> state (server_leg s) = Connected \<and>
     legs_agree s \<and> capabilities (client_leg s) \<noteq> None \<and> capabilities (server_leg s) \<noteq> None"

definition ended :: "session \<Rightarrow> bool" where
  "ended s \<longleftrightarrow>
     (\<exists>r. termination_reason s = Some r \<and>
          finalized s = [RecordReason r, FlushRecording, NotifyLiveStream] \<and>
          (r = NegotiationMismatch \<or> legs_agree s \<or>
           capabilities (client_leg s) = None \<or> capabilities (server_leg s) = None)) \<and>
     state (client_leg s) = Closed \<and> state (server_leg s) = Closed"

definition session_inv :: "session \<Rightarrow> bool" where
  "session_inv s \<longleftrightarrow> negotiating s \<or> passing s \<or> ended s"

section \<open>Properties of the launcher\<close>

subsection \<open>Effects of the helper functions\<close>

lemma trace_emit [simp]: "trace (emit x w) = trace w @ [x]"
  by (simp add: emit_def)

lemma files_emit [simp]: "files (emit x w) = files w"
  by (simp add: emit_def)

lemma quiet_refl: "quiet w w"
  by (simp add: quiet_def)

lemma quiet_trans: "quiet w w1 \<Longrightarrow> quiet w1 w2 \<Longrightarrow> quiet w w2"
  unfolding quiet_def by fastforce

lemma quiet_emit: "\<not> is_listen x \<Longrightarrow> \<not> is_system x \<Longrightarrow> quiet w (emit x (w\<lparr>files := fs\<rparr>))"
  by (simp add: quiet_def)

lemma quiet_emit_same: "\<not> is_listen x \<Longrightarrow> \<not> is_system x \<Longrightarrow> quiet w (emit x w)"
  by (simp add: quiet_def)

lemma quiet_library_statement: "quiet w (snd (library_statement e c w))"
  by (simp add: library_statement_def quiet_emit split: prod.splits)

lemma quiet_makedirs: "quiet w (snd (makedirs e path w))"
  by (simp add: makedirs_def quiet_emit quiet_emit_same split: option.splits)

lemma quiet_open_file: "quiet w (snd (open_file e path w))"
  by (simp add: open_file_def quiet_emit quiet_emit_same split: option.splits)

lemma quiet_and_then:
  assumes "quiet w (snd r)" and "\<And>w1. quiet w1 (snd (f w1))"
  shows "quiet w (snd (and_then r f))"
proof (cases r)
  case (Pair err w1)
  show ?thesis
  proof (cases err)
    case None
    with Pair assms(1) assms(2) [of w1] show ?thesis
      by (auto simp: and_then_def intro: quiet_trans)
  next
    case (Some x)
    with Pair assms(1) show ?thesis
      by (simp add: and_then_def)
  qed
qed

lemma quiet_prepare_loggers: "quiet w (snd (prepare_loggers e logLevel w))"
  unfolding prepare_loggers_def
  by (intro quiet_and_then quiet_library_statement quiet_open_file)
     (simp_all add: quiet_makedirs quiet_refl)

lemma quiet_getSSLPaths: "quiet w (snd (getSSLPaths e w))"
proof (cases "user_config_dir e \<in> files w")
  case True
  then show ?thesis by (simp add: getSSLPaths_def Let_def quiet_refl)
next
  case False
  obtain err w1 where m: "makedirs e (user_config_dir e) w = (err, w1)"
    by (cases "makedirs e (user_config_dir e) w")
  with quiet_makedirs [of w e "user_config_dir e"] have "quiet w w1" by simp
  with False m show ?thesis
    by (cases err) (simp_all add: getSSLPaths_def Let_def)
qed

lemma getSSLPaths_paths:
  "getSSLPaths e w = (Inr (key, certificate), w1) \<Longrightarrow>
   key = user_config_dir e @ ''/private_key.pem'' \<and>
   certificate = user_config_dir e @ ''/certificate.pem''"
  by (auto simp: getSSLPaths_def Let_def split: if_splits prod.splits option.splits)

lemma generateCertificate_trace:
  "trace (snd (generateCertificate e k c w)) = trace w @ [System (openssl_command k c)]"
  by (simp add: generateCertificate_def Let_def split: prod.splits)

lemma handleKeyAndCertificates_existing:
  "key \<in> files w \<Longrightarrow> certificate \<in> files w \<Longrightarrow>
   handleKeyAndCertificates e certificate key w =
     emit (Log INFO ''Using existing certificate: %(certificate)s''
             [(''certificate'', StrArg certificate)])
       (emit (Log INFO ''Using existing private key: %(privateKey)s''
                [(''privateKey'', StrArg key)]) w)"
  by (simp add: handleKeyAndCertificates_def)

lemma handleKeyAndCertificates_missing_systems:
  "\<not> (key \<in> files w \<and> certificate \<in> files w) \<Longrightarrow>
   filter is_system (trace (handleKeyAndCertificates e certificate key w)) =
     filter is_system (trace w) @ [System (openssl_command key certificate)]"
  using generateCertificate_trace [of e key certificate
      "emit (Log INFO ''Generating a private key and certificate for SSL connections'' []) w"]
  by (auto simp: handleKeyAndCertificates_def Let_def split: prod.splits)

text \<open>
  What \<^verbatim>\<open>handleKeyAndCertificates\<close> adds to the trace: no call of \<^verbatim>\<open>reactor.listenTCP\<close>;
  no command when both files exist, which then still exist; one \<^verbatim>\<open>openssl\<close> command
  otherwise.
\<close>

lemma handleKeyAndCertificates_new:
  "\<exists>new. trace (handleKeyAndCertificates e certificate key w) = trace w @ new \<and>
         filter is_listen new = [] \<and>
         (if filter is_system new = []
          then key \<in> files (handleKeyAndCertificates e certificate key w) \<and>
               certificate \<in> files (handleKeyAndCertificates e certificate key w)
          else filter is_system new = [System (openssl_command key certificate)])"
proof (cases "key \<in> files w \<and> certificate \<in> files w")
  case True
  then show ?thesis
    by (simp add: handleKeyAndCertificates_existing)
next
  case False
  let ?w1 = "emit (Log INFO ''Generating a private key and certificate for SSL connections'' []) w"
  obtain ok w2 where g: "generateCertificate e key certificate ?w1 = (ok, w2)"
    by (cases "generateCertificate e key certificate ?w1")
  with generateCertificate_trace [of e key certificate ?w1]
  have t: "trace w2 =
      trace w @ [Log INFO ''Generating a private key and certificate for SSL connections'' [],
                 System (openssl_command key certificate)]"
    by simp
  from False g t show ?thesis
    by (cases ok) (simp_all add: handleKeyAndCertificates_def)
qed

subsection \<open>The key and certificate step, and the arguments of \<^verbatim>\<open>reactor.listenTCP\<close>\<close>

lemma key_and_certificate_mismatch:
  "(args_private_key a = None) \<noteq> (args_certificate a = None) \<Longrightarrow>
   key_and_certificate e a w =
     (Inl (SystemExit 1),
      emit (Log ERROR ''You must provide both the private key and the certificate'' []) w)"
  by (simp add: key_and_certificate_def)

lemma key_and_certificate_given:
  "args_private_key a = Some k \<Longrightarrow> args_certificate a = Some c \<Longrightarrow>
   key_and_certificate e a w = (Inr (k, c), w)"
  by (simp add: key_and_certificate_def)

lemma key_and_certificate_default:
  "args_private_key a = None \<Longrightarrow> args_certificate a = None \<Longrightarrow>
   key_and_certificate e a w =
     (case getSSLPaths e w of
        (Inl err, w1) \<Rightarrow> (Inl err, w1)
      | (Inr (key, certificate), w1) \<Rightarrow>
          (Inr (key, certificate), handleKeyAndCertificates e certificate key w1))"
  by (simp add: key_and_certificate_def)

lemma key_and_certificate_no_listen:
  "\<exists>new. trace (snd (key_and_certificate e a w)) = trace w @ new \<and> filter is_listen new = []"
proof (cases "(args_private_key a = None) \<noteq> (args_certificate a = None)")
  case True
  then show ?thesis by (simp add: key_and_certificate_mismatch)
next
  case False
  show ?thesis
  proof (cases "args_private_key a")
    case (Some k)
    with False obtain c where "args_certificate a = Some c" by auto
    with Some show ?thesis by (simp add: key_and_certificate_given)
  next
    case None
    with False have c: "args_certificate a = None" by simp
    obtain r w1 where g: "getSSLPaths e w = (r, w1)"
      by (cases "getSSLPaths e w")
    with quiet_getSSLPaths [of w e] obtain n1 where
      n1: "trace w1 = trace w @ n1" "filter is_listen n1 = []"
      by (auto simp: quiet_def)
    show ?thesis
    proof (cases r)
      case (Inl err)
      with None c g n1 show ?thesis by (simp add: key_and_certificate_default)
    next
      case (Inr kc)
      obtain key certificate where kc: "kc = (key, certificate)" by (cases kc)
      from handleKeyAndCertificates_new [of e certificate key w1] obtain n2 where
        n2: "trace (handleKeyAndCertificates e certificate key w1) = trace w1 @ n2"
          "filter is_listen n2 = []"
        by blast
      with None c g Inr kc n1 show ?thesis
        by (simp add: key_and_certificate_default)
    qed
  qed
qed

lemma key_and_certificate_paths:
  assumes "key_and_certificate e a w = (Inr (key, certificate), w1)"
  shows "\<exists>new. trace w1 = trace w @ new \<and> filter is_listen new = [] \<and>
      ((args_private_key a = Some key \<and> args_certificate a = Some certificate \<and>
        filter is_system new = [])
       \<or> (args_private_key a = None \<and> args_certificate a = None \<and>
           key = user_config_dir e @ ''/private_key.pem'' \<and>
           certificate = user_config_dir e @ ''/certificate.pem'' \<and>
           (if filter is_system new = []
            then key \<in> files w1 \<and> certificate \<in> files w1
            else filter is_system new = [System (openssl_command key certificate)])))"
proof -
  have both: "(args_private_key a = None) = (args_certificate a = None)"
    using assms key_and_certificate_mismatch [of a e w]
    by (cases "args_private_key a"; cases "args_certificate a"; simp)
  show ?thesis
  proof (cases "args_private_key a")
    case (Some k)
    with both obtain c where c: "args_certificate a = Some c" by auto
    from assms Some c have "key = k" "certificate = c" "w1 = w"
      by (simp_all add: key_and_certificate_given)
    with Some c show ?thesis by simp
  next
    case None
    with both have c: "args_certificate a = None" by simp
    obtain r w0 where g: "getSSLPaths e w = (r, w0)"
      by (cases "getSSLPaths e w")
    with assms None c have r: "r = Inr (key, certificate)"
      and w1: "w1 = handleKeyAndCertificates e certificate key w0"
      by (auto simp: key_and_certificate_default split: sum.splits)
    from g r getSSLPaths_paths [of e w key certificate w0]
    have paths: "key = user_config_dir e @ ''/private_key.pem''"
      "certificate = user_config_dir e @ ''/certificate.pem''"
      by simp_all
    from g quiet_getSSLPaths [of w e] obtain n1 where
      n1: "trace w0 = trace w @ n1" "filter is_listen n1 = []" "filter is_system n1 = []"
      by (auto simp: quiet_def)
    from handleKeyAndCertificates_new [of e certificate key w0] w1 obtain n2 where
      n2: "trace w1 = trace w0 @ n2" "filter is_listen n2 = []"
        "if filter is_system n2 = []
         then key \<in> files w1 \<and> certificate \<in> files w1
         else filter is_system n2 = [System (openssl_command key certificate)]"
      by blast
    have "trace w1 = trace w @ (n1 @ n2)" "filter is_listen (n1 @ n2) = []"
      "filter is_system (n1 @ n2) = filter is_system n2"
      using n1 n2(1,2) by simp_all
    with n2(3) None c paths show ?thesis
      by metis
  qed
qed

lemma main_arguments_no_listen:
  "\<exists>new. trace (snd (main_arguments e a w)) = trace w @ new \<and> filter is_listen new = []"
proof (cases "args_log_level a")
  case None
  then show ?thesis by (simp add: main_arguments_def)
next
  case (Some level)
  obtain err w0 where p: "prepare_loggers e (level_number level) w = (err, w0)"
    by (cases "prepare_loggers e (level_number level) w")
  with quiet_prepare_loggers [of w e "level_number level"] obtain n0 where
    n0: "trace w0 = trace w @ n0" "filter is_listen n0 = []"
    by (auto simp: quiet_def)
  obtain r w1 where k: "key_and_certificate e a w0 = (r, w1)"
    by (cases "key_and_certificate e a w0")
  with key_and_certificate_no_listen [of e a w0] obtain n1 where
    n1: "trace w1 = trace w0 @ n1" "filter is_listen n1 = []"
    by auto
  from Some p k n0 n1 show ?thesis
    by (auto simp: main_arguments_def split: option.splits sum.splits prod.splits)
qed

lemma main_arguments_paths:
  assumes "main_arguments e a w = (Inr (port, f), w1)"
  shows "\<exists>new. trace w1 = trace w @ new \<and> filter is_listen new = [] \<and>
      ((args_private_key a = Some (privateKeyFileName f) \<and>
        args_certificate a = Some (certificateFileName f) \<and>
        filter is_system new = [])
       \<or> (args_private_key a = None \<and> args_certificate a = None \<and>
           privateKeyFileName f = user_config_dir e @ ''/private_key.pem'' \<and>
           certificateFileName f = user_config_dir e @ ''/certificate.pem'' \<and>
           (if filter is_system new = []
            then privateKeyFileName f \<in> files w1 \<and> certificateFileName f \<in> files w1
            else filter is_system new =
                   [System (openssl_command (privateKeyFileName f) (certificateFileName f))])))"
proof -
  from assms obtain level w0 where
    p: "prepare_loggers e (level_number level) w = (None, w0)"
    and k: "key_and_certificate e a w0 = (Inr (privateKeyFileName f, certificateFileName f), w1)"
    by (auto simp: main_arguments_def split: option.splits sum.splits prod.splits)
  from p quiet_prepare_loggers [of w e "level_number level"] obtain n0 where
    n0: "trace w0 = trace w @ n0" "filter is_listen n0 = []" "filter is_system n0 = []"
    by (auto simp: quiet_def)
  from key_and_certificate_paths [OF k] obtain n1 where
    n1: "trace w1 = trace w0 @ n1" "filter is_listen n1 = []"
    and cases: "(args_private_key a = Some (privateKeyFileName f) \<and>
        args_certificate a = Some (certificateFileName f) \<and>
        filter is_system n1 = [])
       \<or> (args_private_key a = None \<and> args_certificate a = None \<and>
           privateKeyFileName f = user_config_dir e @ ''/private_key.pem'' \<and>
           certificateFileName f = user_config_dir e @ ''/certificate.pem'' \<and>
           (if filter is_system n1 = []
            then privateKeyFileName f \<in> files w1 \<and> certificateFileName f \<in> files w1
            else filter is_system n1 =
                   [System (openssl_command (privateKeyFileName f) (certificateFileName f))]))"
    by blast
  have "trace w1 = trace w @ (n0 @ n1)" "filter is_listen (n0 @ n1) = []"
    "filter is_system (n0 @ n1) = filter is_system n1"
    using n0 n1 by simp_all
  with cases show ?thesis
    by metis
qed

subsection \<open>What \<^verbatim>\<open>int\<close> reads\<close>

lemma digit_not_underscore: "is_digit c \<Longrightarrow> c \<noteq> CHR ''_''"
  by (auto simp: is_digit_def)

lemma digit_not_space: "is_digit c \<Longrightarrow> \<not> is_space c"
  by (auto simp: is_digit_def is_space_def)

lemma digit_not_sign: "is_digit c \<Longrightarrow> c \<noteq> CHR ''+'' \<and> c \<noteq> CHR ''-''"
  by (auto simp: is_digit_def)

lemma sign_not_space: "\<not> is_space CHR ''+''" "\<not> is_space CHR ''-''"
  by (simp_all add: is_space_def)

lemma digits_value_digit:
  "is_digit c \<Longrightarrow> digits_value acc (c # s) = digits_value (10 * acc + digit_val c) s"
  by (cases s) simp_all

lemma digits_value_underscore:
  "is_digit d \<Longrightarrow>
   digits_value acc (CHR ''_'' # d # s) = digits_value (10 * acc + digit_val d) s"
  by (simp add: is_digit_def)

lemma decimal_Cons: "decimal acc (c # ds) = decimal (10 * acc + digit_val c) ds"
  by (simp add: decimal_def)

lemma decimal_append: "decimal acc (xs @ ys) = decimal (decimal acc xs) ys"
  by (simp add: decimal_def)

lemma digits_value_run:
  "list_all is_digit g \<Longrightarrow> digits_value acc (g @ s) = digits_value (decimal acc g) s"
  by (induction g arbitrary: acc) (simp_all add: digits_value_digit decimal_Cons decimal_def)

lemma digits_value_more_groups:
  "list_all digit_group gs \<Longrightarrow>
   digits_value acc (concat (map ((#) CHR ''_'') gs)) = Some (decimal acc (concat gs))"
proof (induction gs arbitrary: acc)
  case Nil
  show ?case by (simp add: decimal_def)
next
  case (Cons h gs)
  then obtain d h' where h: "h = d # h'" and d: "is_digit d" and h': "list_all is_digit h'"
    by (cases h) (auto simp: digit_group_def)
  from Cons.prems have gs: "list_all digit_group gs" by simp
  have "digits_value acc (concat (map ((#) CHR ''_'') (h # gs))) =
        digits_value (10 * acc + digit_val d) (h' @ concat (map ((#) CHR ''_'') gs))"
    using d by (simp add: h digits_value_underscore del: digits_value.simps)
  also have "\<dots> = digits_value (decimal (10 * acc + digit_val d) h')
                     (concat (map ((#) CHR ''_'') gs))"
    using h' by (rule digits_value_run)
  also have "\<dots> = Some (decimal (decimal (10 * acc + digit_val d) h') (concat gs))"
    using gs by (rule Cons.IH)
  finally show ?case
    by (simp add: h decimal_Cons decimal_append)
qed

text \<open>What \<open>digits_value\<close> accepts: the rest of a group, then groups each after one underscore.\<close>

lemma digits_value_groups:
  assumes "list_all is_digit g" and "list_all digit_group gs"
  shows "digits_value acc (g @ concat (map ((#) CHR ''_'') gs)) =
         Some (decimal acc (g @ concat gs))"
  using assms
  by (simp add: digits_value_run digits_value_more_groups decimal_append)

lemma digits_value_accepts:
  "digits_value acc s = Some n \<Longrightarrow>
   \<exists>g gs. list_all is_digit g \<and> list_all digit_group gs \<and>
          s = g @ concat (map ((#) CHR ''_'') gs) \<and> n = decimal acc (g @ concat gs)"
proof (induction acc s arbitrary: n rule: digits_value.induct)
  case (1 acc)
  then have "list_all is_digit [] \<and> list_all digit_group [] \<and>
      [] = [] @ concat (map ((#) CHR ''_'') []) \<and> n = decimal acc ([] @ concat [])"
    by (simp add: decimal_def)
  then show ?case by blast
next
  case (2 acc c)
  then have c: "is_digit c" and n: "n = 10 * acc + digit_val c"
    by (auto split: if_splits)
  then have "list_all is_digit [c] \<and> list_all digit_group [] \<and>
      [c] = [c] @ concat (map ((#) CHR ''_'') []) \<and> n = decimal acc ([c] @ concat [])"
    by (simp add: decimal_def)
  then show ?case by blast
next
  case (3 acc c d ds)
  show ?case
  proof (cases "is_digit c")
    case True
    with "3.prems" have "digits_value (10 * acc + digit_val c) (d # ds) = Some n"
      by simp
    from "3.IH"(1) [OF True this] obtain g gs where
      g: "list_all is_digit g" and gs: "list_all digit_group gs"
      and s: "d # ds = g @ concat (map ((#) CHR ''_'') gs)"
      and n: "n = decimal (10 * acc + digit_val c) (g @ concat gs)"
      by blast
    from True g gs s n
    have "list_all is_digit (c # g) \<and> list_all digit_group gs \<and>
        c # d # ds = (c # g) @ concat (map ((#) CHR ''_'') gs) \<and>
        n = decimal acc ((c # g) @ concat gs)"
      by (simp add: decimal_Cons)
    then show ?thesis by blast
  next
    case False
    with "3.prems" have u: "c = CHR ''_'' \<and> is_digit d"
      and v: "digits_value (10 * acc + digit_val d) ds = Some n"
      by (auto split: if_splits)
    from "3.IH"(2) [OF False u v] obtain g gs where
      g: "list_all is_digit g" and gs: "list_all digit_group gs"
      and s: "ds = g @ concat (map ((#) CHR ''_'') gs)"
      and n: "n = decimal (10 * acc + digit_val d) (g @ concat gs)"
      by blast
    from u g gs s n
    have "list_all is_digit [] \<and> list_all digit_group ((d # g) # gs) \<and>
        c # d # ds = [] @ concat (map ((#) CHR ''_'') ((d # g) # gs)) \<and>
        n = decimal acc ([] @ concat ((d # g) # gs))"
      by (simp add: decimal_Cons digit_group_def)
    then show ?thesis by blast
  qed
qed


lemma unsigned_int_groups:
  assumes "digit_group g" and "list_all digit_group gs"
  shows "unsigned_int (g @ concat (map ((#) CHR ''_'') gs)) = Some (decimal 0 (g @ concat gs))"
proof -
  from assms(1) obtain c g' where g: "g = c # g'" and c: "is_digit c"
    and g': "list_all is_digit g'"
    by (cases g) (auto simp: digit_group_def)
  from digits_value_groups [OF g' assms(2), of "digit_val c"] c
  show ?thesis
    by (simp add: g unsigned_int_def decimal_Cons)
qed

lemma unsigned_int_accepts:
  assumes "unsigned_int s = Some n"
  shows "\<exists>g gs. digit_group g \<and> list_all digit_group gs \<and>
           s = g @ concat (map ((#) CHR ''_'') gs) \<and> n = decimal 0 (g @ concat gs)"
proof -
  from assms obtain c cs where s: "s = c # cs" and c: "is_digit c"
    and v: "digits_value (digit_val c) cs = Some n"
    by (cases s) (auto simp: unsigned_int_def split: if_splits)
  from digits_value_accepts [OF v] obtain g gs where
    g: "list_all is_digit g" and gs: "list_all digit_group gs"
    and cs: "cs = g @ concat (map ((#) CHR ''_'') gs)"
    and n: "n = decimal (digit_val c) (g @ concat gs)"
    by blast
  from c g gs cs n s
  have "digit_group (c # g) \<and> list_all digit_group gs \<and>
      s = (c # g) @ concat (map ((#) CHR ''_'') gs) \<and> n = decimal 0 ((c # g) @ concat gs)"
    by (simp add: digit_group_def decimal_Cons)
  then show ?thesis by blast
qed

text \<open>Stripping: the white space at both ends goes, and nothing else.\<close>

lemma strip_exact:
  assumes "t \<noteq> []" and "\<not> is_space (hd t)" and "\<not> is_space (last t)"
    and "list_all is_space a" and "list_all is_space b"
  shows "strip (a @ t @ b) = t"
proof -
  from assms(1) obtain x t' where t: "t = x # t'" by (cases t) auto
  have front: "dropWhile is_space (a @ t @ b) = t @ b"
    using assms(2,4) by (simp add: t dropWhile_append2 list_all_iff)
  have "dropWhile is_space (rev b @ rev t) = dropWhile is_space (rev t)"
    by (rule dropWhile_append2) (use assms(5) in \<open>simp add: list_all_iff\<close>)
  then have "dropWhile is_space (rev (t @ b)) = dropWhile is_space (rev t)"
    by simp
  also have "\<dots> = rev t"
    using assms(1,3) by (cases "rev t") (auto simp: last_rev [symmetric] hd_rev)
  finally show ?thesis
    by (simp add: strip_def front)
qed

lemma strip_split:
  "\<exists>a b. s = a @ strip s @ b \<and> list_all is_space a \<and> list_all is_space b"
proof -
  let ?u = "dropWhile is_space s"
  have s: "s = takeWhile is_space s @ ?u" by simp
  have "rev (takeWhile is_space (rev ?u) @ dropWhile is_space (rev ?u)) = rev (rev ?u)"
    by (simp only: takeWhile_dropWhile_id)
  then have u: "strip s @ rev (takeWhile is_space (rev ?u)) = ?u"
    by (simp only: rev_append rev_rev_ident strip_def)
  have a: "list_all is_space (takeWhile is_space s)"
    by (auto simp: list_all_iff dest: set_takeWhileD)
  have b: "list_all is_space (rev (takeWhile is_space (rev ?u)))"
    by (auto simp: list_all_iff dest: set_takeWhileD)
  have "s = takeWhile is_space s @ strip s @ rev (takeWhile is_space (rev ?u))"
    by (simp only: u takeWhile_dropWhile_id)
  with a b show ?thesis by blast
qed

lemma groups_end_in_digit:
  assumes "digit_group g" and "list_all digit_group gs"
  shows "g @ concat (map ((#) CHR ''_'') gs) \<noteq> [] \<and>
         is_digit (hd (g @ concat (map ((#) CHR ''_'') gs))) \<and>
         is_digit (last (g @ concat (map ((#) CHR ''_'') gs)))"
  using assms
proof (induction gs arbitrary: g rule: rev_induct)
  case Nil
  then show ?case
    by (cases g) (auto simp: digit_group_def list_all_iff)
next
  case (snoc h gs)
  then have h: "h \<noteq> []" "is_digit (last h)" and g: "g \<noteq> []" "is_digit (hd g)"
    by (auto simp: digit_group_def list_all_iff)
  then show ?case by simp
qed

lemma py_int_literal:
  assumes "int_literal s n"
  shows "py_int s = Some n"
proof -
  from assms obtain before sign g gs after where
    s: "s = before @ sign @ g @ concat (map ((#) CHR ''_'') gs) @ after"
    and sp: "list_all is_space before" "list_all is_space after"
    and sign: "sign = [] \<or> sign = ''+'' \<or> sign = ''-''"
    and g: "digit_group g" and gs: "list_all digit_group gs"
    and n: "n = (if sign = ''-'' then - decimal 0 (g @ concat gs) else decimal 0 (g @ concat gs))"
    unfolding int_literal_def by blast
  let ?body = "g @ concat (map ((#) CHR ''_'') gs)"
  from groups_end_in_digit [OF g gs]
  have body: "?body \<noteq> []" "is_digit (hd ?body)" "is_digit (last ?body)"
    by blast+
  from body(1) obtain c cs where cs: "?body = c # cs"
    by (cases ?body) auto
  with body(2) have c: "is_digit c" by simp
  have u: "unsigned_int (c # cs) = Some (decimal 0 (g @ concat gs))"
    using unsigned_int_groups [OF g gs] by (simp only: cs)
  have t: "sign @ ?body \<noteq> []" "\<not> is_space (hd (sign @ ?body))"
    "\<not> is_space (last (sign @ ?body))"
    using sign body digit_not_space sign_not_space by auto
  have "s = before @ (sign @ ?body) @ after"
    by (simp add: s)
  then have strip: "strip s = sign @ c # cs"
    using strip_exact [OF t sp] by (simp only: cs)
  from sign show ?thesis
  proof (elim disjE)
    assume "sign = []"
    with strip u n c digit_not_sign [of c] show ?thesis
      by (simp add: py_int_def)
  next
    assume "sign = ''+''"
    with strip u n show ?thesis
      by (simp add: py_int_def)
  next
    assume "sign = ''-''"
    with strip u n show ?thesis
      by (simp add: py_int_def)
  qed
qed

lemma int_literal_py_int:
  assumes "py_int s = Some n"
  shows "int_literal s n"
proof -
  from strip_split [of s] obtain a b where
    s: "s = a @ strip s @ b" and a: "list_all is_space a" and b: "list_all is_space b"
    by blast
  from assms obtain c cs where strip: "strip s = c # cs"
    by (cases "strip s") (auto simp: py_int_def)
  have lit: "int_literal s n"
    if sign: "sign = [] \<or> sign = ''+'' \<or> sign = ''-''"
      and t: "strip s = sign @ t" and u: "unsigned_int t = Some m"
      and n: "n = (if sign = ''-'' then - m else m)" for sign t m
  proof -
    from unsigned_int_accepts [OF u] obtain g gs where
      g: "digit_group g" and gs: "list_all digit_group gs"
      and tt: "t = g @ concat (map ((#) CHR ''_'') gs)" and m: "m = decimal 0 (g @ concat gs)"
      by blast
    have "s = a @ sign @ g @ concat (map ((#) CHR ''_'') gs) @ b"
      using s by (simp only: t tt append_assoc)
    with a b sign g gs n m show ?thesis
      unfolding int_literal_def by blast
  qed
  show ?thesis
  proof (cases "c = CHR ''-''")
    case True
    with assms strip obtain m where "unsigned_int cs = Some m" and "n = - m"
      by (auto simp: py_int_def)
    with lit [of "''-''" cs m] strip True show ?thesis by simp
  next
    case False
    show ?thesis
    proof (cases "c = CHR ''+''")
      case True
      with assms strip have "unsigned_int cs = Some n"
        by (auto simp: py_int_def)
      with lit [of "''+''" cs n] strip True show ?thesis by simp
    next
      case plus: False
      with False assms strip have "unsigned_int (c # cs) = Some n"
        by (auto simp: py_int_def)
      with lit [of "[]" "c # cs" n] strip show ?thesis by simp
    qed
  qed
qed

lemma py_int_iff: "py_int s = Some n \<longleftrightarrow> int_literal s n"
  using py_int_literal int_literal_py_int by blast

lemma int_literal_unique: "int_literal s n \<Longrightarrow> int_literal s m \<Longrightarrow> n = m"
  by (metis py_int_literal option.inject)

subsection \<open>The target argument\<close>

lemma str_index_first:
  "c \<in> set s \<Longrightarrow>
     \<exists>i. str_index s c = Some i \<and> s = take i s @ c # drop (i + 1) s \<and> c \<notin> set (take i s)"
  by (induction s) auto

lemma str_index_append: "c \<notin> set xs \<Longrightarrow> str_index (xs @ c # ys) c = Some (length xs)"
  by (induction xs) auto

lemma parse_target_split:
  assumes "CHR '':'' \<notin> set host"
  shows "parse_target (host @ CHR '':'' # rest) =
           (case py_int rest of None \<Rightarrow> Inl ValueError | Some port \<Rightarrow> Inr (host, port))"
  using assms by (cases "py_int rest") (simp_all add: parse_target_def str_index_append)

text \<open>
  Claim C9. For a target of at most 640 ASCII characters: when it contains a colon it is
  split at its first colon, the host is the text before it, and the port is the number
  that the text after it stands for as an integer text of Python (\<^verbatim>\<open>ValueError\<close> when
  it is none); a target without a colon is the host, and the port is 3389.
\<close>

theorem parse_target_host_port:
  assumes "ascii_text target"
  shows
    "(CHR '':'' \<in> set target \<longrightarrow>
        (\<exists>host rest. target = host @ CHR '':'' # rest \<and> CHR '':'' \<notin> set host \<and>
           (\<forall>port. int_literal rest port \<longrightarrow> parse_target target = Inr (host, port)) \<and>
           ((\<forall>port. \<not> int_literal rest port) \<longrightarrow> parse_target target = Inl ValueError)))
     \<and> (CHR '':'' \<notin> set target \<longrightarrow> parse_target target = Inr (target, 3389))"
proof (intro conjI impI)
  assume colon: "CHR '':'' \<in> set target"
  from str_index_first [OF colon] obtain i where
    split: "target = take i target @ CHR '':'' # drop (i + 1) target"
    and first: "CHR '':'' \<notin> set (take i target)"
    by blast
  let ?host = "take i target" and ?rest = "drop (i + 1) target"
  have res: "parse_target target =
      (case py_int ?rest of None \<Rightarrow> Inl ValueError | Some port \<Rightarrow> Inr (?host, port))"
    using parse_target_split [OF first, of ?rest] split by simp
  have good: "\<forall>port. int_literal ?rest port \<longrightarrow> parse_target target = Inr (?host, port)"
    using res by (simp add: py_int_iff [symmetric])
  have bad: "(\<forall>port. \<not> int_literal ?rest port) \<longrightarrow> parse_target target = Inl ValueError"
    using res by (cases "py_int ?rest") (auto simp: py_int_iff [symmetric])
  from split first good bad show
    "\<exists>host rest. target = host @ CHR '':'' # rest \<and> CHR '':'' \<notin> set host \<and>
       (\<forall>port. int_literal rest port \<longrightarrow> parse_target target = Inr (host, port)) \<and>
       ((\<forall>port. \<not> int_literal rest port) \<longrightarrow> parse_target target = Inl ValueError)"
    by blast
next
  assume "CHR '':'' \<notin> set target"
  then show "parse_target target = Inr (target, 3389)"
    by (simp add: parse_target_def)
qed

theorem parse_target_host_port_witness:
  "ascii_text ''129.168.0.2:3390'' \<and> ascii_text ''10.0.0.7'' \<and> ascii_text ''host: +3_389 '' \<and>
   ascii_text ''host:rdp'' \<and>
   parse_target ''129.168.0.2:3390'' = Inr (''129.168.0.2'', 3390) \<and>
   parse_target ''10.0.0.7'' = Inr (''10.0.0.7'', 3389) \<and>
   parse_target ''host: +3_389 '' = Inr (''host'', 3389) \<and>
   parse_target ''host:rdp'' = Inl ValueError"
proof -
  have ascii: "ascii_text ''129.168.0.2:3390''" "ascii_text ''10.0.0.7''"
    "ascii_text ''host: +3_389 ''" "ascii_text ''host:rdp''"
    by (simp_all add: ascii_text_def is_ascii_def)
  have with_port: "parse_target (h @ CHR '':'' # r) = Inr (h, n)"
    if h: "CHR '':'' \<notin> set h" and r: "CHR '':'' \<notin> set r" and n: "py_int r = Some n"
      and a: "ascii_text (h @ CHR '':'' # r)" for h r n
  proof -
    have "CHR '':'' \<in> set (h @ CHR '':'' # r)" by simp
    with parse_target_host_port [OF a] obtain host rest where
      split: "h @ CHR '':'' # r = host @ CHR '':'' # rest"
      and res: "\<forall>port. int_literal rest port \<longrightarrow> parse_target (h @ CHR '':'' # r) = Inr (host, port)"
      by blast
    have "h = host \<and> r = rest"
      using split by (rule append_Cons_eq_iff [OF h r, THEN iffD1])
    with res n show ?thesis
      by (simp add: py_int_iff)
  qed
  have no_port: "parse_target (h @ CHR '':'' # r) = Inl ValueError"
    if h: "CHR '':'' \<notin> set h" and r: "CHR '':'' \<notin> set r" and n: "py_int r = None"
      and a: "ascii_text (h @ CHR '':'' # r)" for h r
  proof -
    have "CHR '':'' \<in> set (h @ CHR '':'' # r)" by simp
    with parse_target_host_port [OF a] obtain host rest where
      split: "h @ CHR '':'' # r = host @ CHR '':'' # rest"
      and res: "(\<forall>port. \<not> int_literal rest port) \<longrightarrow>
                  parse_target (h @ CHR '':'' # r) = Inl ValueError"
      by blast
    have "h = host \<and> r = rest"
      using split by (rule append_Cons_eq_iff [OF h r, THEN iffD1])
    with res n show ?thesis
      by (simp add: py_int_iff [symmetric])
  qed
  have "py_int ''3390'' = Some 3390" "py_int '' +3_389 '' = Some 3389" "py_int ''rdp'' = None"
    by code_simp+
  with with_port [of "''129.168.0.2''" "''3390''" 3390]
    with_port [of "''host''" "'' +3_389 ''" 3389]
    no_port [of "''host''" "''rdp''"] ascii
  have "parse_target ''129.168.0.2:3390'' = Inr (''129.168.0.2'', 3390)"
    "parse_target ''host: +3_389 '' = Inr (''host'', 3389)"
    "parse_target ''host:rdp'' = Inl ValueError"
    by simp_all
  moreover from parse_target_host_port [OF ascii(2)]
  have "parse_target ''10.0.0.7'' = Inr (''10.0.0.7'', 3389)" by simp
  ultimately show ?thesis
    using ascii by simp
qed

text \<open>
  What \<open>py_int\<close> gives on texts at the edges of the syntax, as \<^verbatim>\<open>int\<close> does: the control
  characters 28 to 31 are no white space, a sign stands alone before the digits, an
  underscore stands between two digits only.
\<close>

lemma py_int_examples:
  "py_int [CHR 0x1F, CHR ''5''] = None"
  "py_int [CHR 0x0B, CHR ''5'', CHR '' ''] = Some 5"
  "py_int ''1__0'' = None"
  "py_int ''_1'' = None"
  "py_int ''1_'' = None"
  "py_int ''+ 1'' = None"
  "py_int '''' = None"
  "py_int ''-'' = None"
  "py_int ''00012'' = Some 12"
  "py_int ''-0'' = Some 0"
  by code_simp+

subsection \<open>The launcher on the example machine\<close>

lemma prepare_loggers_home:
  "''log'' \<notin> fs \<Longrightarrow>
   prepare_loggers home_env (level_number INFO) \<lparr>files = fs, trace = []\<rparr> =
     (None,
      \<lparr>files = insert ''log/mitm.json'' (insert ''log/mitm.log'' (insert ''log'' fs)),
       trace = loggers_trace\<rparr>)"
  by (simp add: prepare_loggers_def and_then_def library_statement_def makedirs_def
      open_file_def home_env_def emit_def loggers_trace_def)

subsection \<open>One of the key and the certificate\<close>

lemma parse_target_parses:
  assumes "CHR '':'' \<notin> set target \<or>
     (\<exists>host rest port. target = host @ CHR '':'' # rest \<and> CHR '':'' \<notin> set host \<and>
        int_literal rest port)"
  shows "\<exists>hp. parse_target target = Inr hp"
  using assms
proof
  assume "CHR '':'' \<notin> set target"
  then show ?thesis by (simp add: parse_target_def)
next
  assume "\<exists>host rest port. target = host @ CHR '':'' # rest \<and> CHR '':'' \<notin> set host \<and>
        int_literal rest port"
  then obtain host rest port where t: "target = host @ CHR '':'' # rest"
    and h: "CHR '':'' \<notin> set host" and p: "py_int rest = Some port"
    by (auto simp: py_int_iff)
  from parse_target_split [OF h, of rest] t p show ?thesis by simp
qed

lemma main_exit:
  assumes "(args_private_key a = None) \<noteq> (args_certificate a = None)"
    and "args_log_level a = Some level"
    and "prepare_loggers e (level_number level) w = (None, w0)"
    and "parse_target (args_target a) = Inr hp"
  shows "main e a w =
     (Inl (SystemExit 1),
      emit (Log ERROR ''You must provide both the private key and the certificate'' []) w0)"
  using assms
  by (cases hp) (simp add: main_def main_arguments_def key_and_certificate_mismatch)

lemma main_arguments_one_option:
  assumes "(args_private_key a = None) \<noteq> (args_certificate a = None)"
  shows "\<exists>err. fst (main_arguments e a w) = Inl err"
proof (cases "args_log_level a")
  case None
  then show ?thesis by (simp add: main_arguments_def)
next
  case (Some level)
  obtain r w0 where p: "prepare_loggers e (level_number level) w = (r, w0)"
    by (cases "prepare_loggers e (level_number level) w")
  from Some p assms show ?thesis
    by (auto simp: main_arguments_def key_and_certificate_mismatch
          split: option.splits sum.splits prod.splits)
qed

text \<open>
  Claim C8, as the code has it. The check of the two options is at line 145, after the
  log level is looked up, the loggers are prepared and the target is parsed. When exactly
  one of \<^verbatim>\<open>--private-key\<close> and \<^verbatim>\<open>--certificate\<close> is given and the run gets there
  (\<^verbatim>\<open>--log-level\<close> names a level, \<^verbatim>\<open>prepare_loggers\<close> returns, and the target, of at most
  640 ASCII characters, has no colon or an integer text after its first colon), \<^verbatim>\<open>main\<close>
  logs the error and exits with status 1, having done nothing else since the loggers were
  prepared. Whether or not the run gets there, with exactly one of the two \<^verbatim>\<open>main\<close>
  never calls \<^verbatim>\<open>reactor.listenTCP\<close>.
\<close>

theorem main_one_of_key_certificate:
  "((args_private_key a = None) \<noteq> (args_certificate a = None) \<and>
    args_log_level a = Some level \<and>
    prepare_loggers e (level_number level) w = (None, w0) \<and>
    ascii_text (args_target a) \<and>
    (CHR '':'' \<notin> set (args_target a) \<or>
     (\<exists>host rest port. args_target a = host @ CHR '':'' # rest \<and> CHR '':'' \<notin> set host \<and>
        int_literal rest port)) \<longrightarrow>
      main e a w =
        (Inl (SystemExit 1),
         emit (Log ERROR ''You must provide both the private key and the certificate'' []) w0))
   \<and> ((args_private_key a = None) \<noteq> (args_certificate a = None) \<longrightarrow>
        (\<exists>new. trace (snd (main e a w)) = trace w @ new \<and> filter is_listen new = []))"
proof (intro conjI impI)
  assume h: "(args_private_key a = None) \<noteq> (args_certificate a = None) \<and>
    args_log_level a = Some level \<and>
    prepare_loggers e (level_number level) w = (None, w0) \<and>
    ascii_text (args_target a) \<and>
    (CHR '':'' \<notin> set (args_target a) \<or>
     (\<exists>host rest port. args_target a = host @ CHR '':'' # rest \<and> CHR '':'' \<notin> set host \<and>
        int_literal rest port))"
  then obtain hp where "parse_target (args_target a) = Inr hp"
    using parse_target_parses [of "args_target a"] by blast
  with h show "main e a w =
        (Inl (SystemExit 1),
         emit (Log ERROR ''You must provide both the private key and the certificate'' []) w0)"
    using main_exit [of a level e w w0 hp] by blast
next
  assume one: "(args_private_key a = None) \<noteq> (args_certificate a = None)"
  from main_arguments_one_option [OF one, of e w] obtain err where
    "fst (main_arguments e a w) = Inl err" by blast
  then have "snd (main e a w) = snd (main_arguments e a w)"
    by (cases "main_arguments e a w") (simp add: main_def)
  with main_arguments_no_listen [of e a w]
  show "\<exists>new. trace (snd (main e a w)) = trace w @ new \<and> filter is_listen new = []"
    by simp
qed

theorem main_one_of_key_certificate_witness:
  "ascii_text (args_target (example_args\<lparr>args_certificate := Some ''cert.pem''\<rparr>)) \<and>
   main home_env (example_args\<lparr>args_certificate := Some ''cert.pem''\<rparr>)
        \<lparr>files = {}, trace = []\<rparr> =
     (Inl (SystemExit 1),
      \<lparr>files = {''log/mitm.json'', ''log/mitm.log'', ''log''},
       trace = loggers_trace @
         [Log ERROR ''You must provide both the private key and the certificate'' []]\<rparr>)
   \<and> (\<exists>new. trace (snd (main home_env (example_args\<lparr>args_certificate := Some ''cert.pem''\<rparr>)
                      \<lparr>files = {}, trace = []\<rparr>)) = new \<and> filter is_listen new = [])"
proof -
  let ?a = "example_args\<lparr>args_certificate := Some ''cert.pem''\<rparr>"
  let ?w = "\<lparr>files = {}, trace = []\<rparr> :: world"
  let ?v = "\<lparr>files = {''log/mitm.json'', ''log/mitm.log'', ''log''}, trace = loggers_trace\<rparr>"
  have one: "(args_private_key ?a = None) \<noteq> (args_certificate ?a = None)"
    by (simp add: example_args_def)
  have level: "args_log_level ?a = Some INFO"
    by (simp add: example_args_def)
  have loggers: "prepare_loggers home_env (level_number INFO) ?w = (None, ?v)"
    by (rule prepare_loggers_home) simp
  have ascii: "ascii_text (args_target ?a)"
    by (simp add: example_args_def ascii_text_def is_ascii_def)
  have "int_literal ''3390'' 3390"
    unfolding py_int_iff [symmetric] by code_simp
  then have parses: "\<exists>host rest port. args_target ?a = host @ CHR '':'' # rest \<and>
      CHR '':'' \<notin> set host \<and> int_literal rest port"
    by (intro exI [of _ "''129.168.0.2''"] exI [of _ "''3390''"] exI [of _ 3390])
       (simp add: example_args_def)
  from main_one_of_key_certificate [of ?a INFO home_env ?w ?v] one level loggers ascii parses
  have "main home_env ?a ?w =
      (Inl (SystemExit 1),
       emit (Log ERROR ''You must provide both the private key and the certificate'' []) ?v)"
    and "\<exists>new. trace (snd (main home_env ?a ?w)) = trace ?w @ new \<and> filter is_listen new = []"
    by blast+
  with ascii show ?thesis
    by (simp add: emit_def)
qed

text \<open>
  With only \<^verbatim>\<open>--private-key\<close> given and a target whose port is not a number, the run ends
  in \<^verbatim>\<open>ValueError\<close> at line 141: no error is logged and \<^verbatim>\<open>sys.exit(1)\<close> is not reached.
\<close>

theorem main_one_option_counterexample:
  "main home_env
     (example_args\<lparr>args_target := ''host:rdp'', args_private_key := Some ''key.pem''\<rparr>)
     \<lparr>files = {}, trace = []\<rparr> =
   (Inl ValueError,
    \<lparr>files = {''log/mitm.json'', ''log/mitm.log'', ''log''}, trace = loggers_trace\<rparr>)"
proof -
  have "parse_target ''host:rdp'' = Inl ValueError"
    by code_simp
  moreover have "prepare_loggers home_env (level_number INFO) \<lparr>files = {}, trace = []\<rparr> =
      (None, \<lparr>files = {''log/mitm.json'', ''log/mitm.log'', ''log''}, trace = loggers_trace\<rparr>)"
    by (rule prepare_loggers_home) simp
  ultimately show ?thesis
    by (simp add: main_def main_arguments_def example_args_def)
qed

text \<open>
  With \<^verbatim>\<open>-L\<close> given without a value, \<^verbatim>\<open>args.log_level\<close> is \<^verbatim>\<open>None\<close> and the run ends in
  \<^verbatim>\<open>TypeError\<close> at line 133, before anything is done.
\<close>

lemma main_log_level_missing:
  "args_log_level a = None \<Longrightarrow> main e a w = (Inl TypeError, w)"
  by (simp add: main_def main_arguments_def)

subsection \<open>The key and the certificate the listener is given\<close>

lemma main_listen_call:
  assumes "main e a w = (r, w')"
    and "ListenTCP port f \<in> set (drop (length (trace w)) (trace w'))"
  shows "\<exists>w1 after. main_arguments e a w = (Inr (port, f), w1) \<and>
           trace w' = trace w1 @ ListenTCP port f # after \<and> files w' = files w1 \<and>
           (after = [] \<or>
            after = [Log INFO ''MITM Server listening on port %(port)d'' [(''port'', IntArg port)],
                     ReactorRun])"
proof -
  obtain res w1 where m: "main_arguments e a w = (res, w1)"
    by (cases "main_arguments e a w")
  with main_arguments_no_listen [of e a w] obtain new where
    new: "trace w1 = trace w @ new" "filter is_listen new = []"
    by auto
  then have quiet: "ListenTCP port f \<notin> set new"
    by (auto simp: filter_empty_conv)
  show ?thesis
  proof (cases res)
    case (Inl err)
    with m assms new quiet show ?thesis
      by (simp add: main_def)
  next
    case (Inr pf)
    obtain p g where pf: "pf = (p, g)" by (cases pf)
    show ?thesis
    proof (cases "listenTCP_error e p (files w1)")
      case None
      with m Inr pf assms(1) have w': "w' =
          emit ReactorRun
            (emit (Log INFO ''MITM Server listening on port %(port)d'' [(''port'', IntArg p)])
               (emit (ListenTCP p g) w1))"
        by (simp add: main_def Let_def)
      with assms(2) new quiet have "p = port \<and> g = f"
        by auto
      with w' m Inr pf show ?thesis
        by simp
    next
      case (Some err)
      with m Inr pf assms(1) have w': "w' = emit (ListenTCP p g) w1"
        by (simp add: main_def Let_def)
      with assms(2) new quiet have "p = port \<and> g = f"
        by auto
      with w' m Inr pf show ?thesis
        by simp
    qed
  qed
qed

text \<open>
  Claim C4, as the code has it. Take a run of \<^verbatim>\<open>main\<close>, on arguments within the model of
  \<^verbatim>\<open>int\<close>, that calls \<^verbatim>\<open>reactor.listenTCP\<close>. It calls it once, as the last thing but the
  log record and \<^verbatim>\<open>reactor.run\<close>, and everything else the run does comes before the call.
  The factory it passes holds either the two paths of \<^verbatim>\<open>-k\<close> and \<^verbatim>\<open>-c\<close>, as they were
  typed, and then no command has been run (nothing reads or writes these files); or the
  two default paths under the configuration directory, and then before the call either no
  command has been run and both files exist at the moment of the call, or the \<^verbatim>\<open>openssl\<close>
  command has been run, once, for these two paths.
\<close>

theorem main_listen_key_certificate:
  assumes run: "main e a w = (r, w')"
    and called: "ListenTCP port f \<in> set (drop (length (trace w)) (trace w'))"
    and ascii: "ascii_args a"
  shows "\<exists>before after w1.
      main_arguments e a w = (Inr (port, f), w1) \<and>
      trace w1 = trace w @ before \<and>
      trace w' = trace w1 @ ListenTCP port f # after \<and>
      files w' = files w1 \<and>
      filter is_listen before = [] \<and>
      (after = [] \<or>
       after = [Log INFO ''MITM Server listening on port %(port)d'' [(''port'', IntArg port)],
                ReactorRun]) \<and>
      ((args_private_key a = Some (privateKeyFileName f) \<and>
        args_certificate a = Some (certificateFileName f) \<and>
        filter is_system before = [])
       \<or> (args_private_key a = None \<and> args_certificate a = None \<and>
           privateKeyFileName f = user_config_dir e @ ''/private_key.pem'' \<and>
           certificateFileName f = user_config_dir e @ ''/certificate.pem'' \<and>
           (if filter is_system before = []
            then privateKeyFileName f \<in> files w1 \<and> certificateFileName f \<in> files w1
            else filter is_system before =
                   [System (openssl_command (privateKeyFileName f) (certificateFileName f))])))"
proof -
  from main_listen_call [OF run called] obtain w1 after where
    m: "main_arguments e a w = (Inr (port, f), w1)"
    and t: "trace w' = trace w1 @ ListenTCP port f # after" "files w' = files w1"
    and after: "after = [] \<or>
       after = [Log INFO ''MITM Server listening on port %(port)d'' [(''port'', IntArg port)],
                ReactorRun]"
    by blast
  from main_arguments_paths [OF m] obtain before where
    "trace w1 = trace w @ before" "filter is_listen before = []"
    "(args_private_key a = Some (privateKeyFileName f) \<and>
        args_certificate a = Some (certificateFileName f) \<and>
        filter is_system before = [])
       \<or> (args_private_key a = None \<and> args_certificate a = None \<and>
           privateKeyFileName f = user_config_dir e @ ''/private_key.pem'' \<and>
           certificateFileName f = user_config_dir e @ ''/certificate.pem'' \<and>
           (if filter is_system before = []
            then privateKeyFileName f \<in> files w1 \<and> certificateFileName f \<in> files w1
            else filter is_system before =
                   [System (openssl_command (privateKeyFileName f) (certificateFileName f))]))"
    by blast
  with m t after show ?thesis
    by blast
qed

theorem main_listen_key_certificate_witness:
  "ascii_args example_args \<and>
   (\<exists>before after w1.
      main_arguments home_env example_args home_world = (Inr (3389, example_factory), w1) \<and>
      trace w1 = before \<and>
      trace (snd (main home_env example_args home_world)) =
        before @ ListenTCP 3389 example_factory # after \<and>
      filter is_listen before = [] \<and> filter is_system before = [] \<and>
      ''/root/.config/pyrdp/private_key.pem'' \<in> files w1 \<and>
      ''/root/.config/pyrdp/certificate.pem'' \<in> files w1) \<and>
   (\<exists>before after w1.
      main_arguments home_env example_args \<lparr>files = {}, trace = []\<rparr> =
        (Inr (3389, example_factory), w1) \<and>
      trace w1 = before \<and>
      trace (snd (main home_env example_args \<lparr>files = {}, trace = []\<rparr>)) =
        before @ ListenTCP 3389 example_factory # after \<and>
      filter is_listen before = [] \<and>
      filter is_system before =
        [System (openssl_command ''/root/.config/pyrdp/private_key.pem''
                   ''/root/.config/pyrdp/certificate.pem'')])"
proof -
  have ascii: "ascii_args example_args"
    by (simp add: ascii_args_def example_args_def ascii_text_def is_ascii_def)
  have none: "args_private_key example_args = None"
    by (simp add: example_args_def)
  have paths: "privateKeyFileName example_factory = ''/root/.config/pyrdp/private_key.pem''"
    "certificateFileName example_factory = ''/root/.config/pyrdp/certificate.pem''"
    by (simp_all add: example_factory_def)
  have started: "trace home_world = []"
    by (simp add: home_world_def)
  let ?r = "main home_env example_args home_world"
  have run: "?r = (fst ?r, snd ?r)"
    by simp
  have called: "ListenTCP 3389 example_factory \<in>
      set (drop (length (trace home_world)) (trace (snd ?r)))"
    by code_simp
  have quiet: "filter is_system (trace (snd (main_arguments home_env example_args home_world))) = []"
    by code_simp
  from main_listen_key_certificate [OF run called ascii] none
  obtain before after w1 where
    m: "main_arguments home_env example_args home_world = (Inr (3389, example_factory), w1)"
    and t: "trace w1 = trace home_world @ before"
      "trace (snd ?r) = trace w1 @ ListenTCP 3389 example_factory # after"
      "filter is_listen before = []"
    and c: "if filter is_system before = []
            then privateKeyFileName example_factory \<in> files w1 \<and>
                 certificateFileName example_factory \<in> files w1
            else filter is_system before =
                   [System (openssl_command (privateKeyFileName example_factory)
                      (certificateFileName example_factory))]"
    by auto
  from quiet m t(1) started have "filter is_system before = []"
    by simp
  with c m t started paths have first:
    "\<exists>before after w1.
      main_arguments home_env example_args home_world = (Inr (3389, example_factory), w1) \<and>
      trace w1 = before \<and>
      trace (snd (main home_env example_args home_world)) =
        before @ ListenTCP 3389 example_factory # after \<and>
      filter is_listen before = [] \<and> filter is_system before = [] \<and>
      ''/root/.config/pyrdp/private_key.pem'' \<in> files w1 \<and>
      ''/root/.config/pyrdp/certificate.pem'' \<in> files w1"
    by auto
  let ?e = "\<lparr>files = {}, trace = []\<rparr> :: world"
  let ?s = "main home_env example_args ?e"
  have run': "?s = (fst ?s, snd ?s)"
    by simp
  have called': "ListenTCP 3389 example_factory \<in> set (drop (length (trace ?e)) (trace (snd ?s)))"
    by code_simp
  have loud: "filter is_system (trace (snd (main_arguments home_env example_args ?e))) \<noteq> []"
    by code_simp
  from main_listen_key_certificate [OF run' called' ascii] none
  obtain before' after' w1' where
    m': "main_arguments home_env example_args ?e = (Inr (3389, example_factory), w1')"
    and t': "trace w1' = trace ?e @ before'"
      "trace (snd ?s) = trace w1' @ ListenTCP 3389 example_factory # after'"
      "filter is_listen before' = []"
    and c': "if filter is_system before' = []
            then privateKeyFileName example_factory \<in> files w1' \<and>
                 certificateFileName example_factory \<in> files w1'
            else filter is_system before' =
                   [System (openssl_command (privateKeyFileName example_factory)
                      (certificateFileName example_factory))]"
    by auto
  from loud m' t'(1) have "filter is_system before' \<noteq> []"
    by simp
  with c' m' t' paths have second:
    "\<exists>before after w1.
      main_arguments home_env example_args ?e = (Inr (3389, example_factory), w1) \<and>
      trace w1 = before \<and>
      trace (snd (main home_env example_args ?e)) =
        before @ ListenTCP 3389 example_factory # after \<and>
      filter is_listen before = [] \<and>
      filter is_system before =
        [System (openssl_command ''/root/.config/pyrdp/private_key.pem''
                   ''/root/.config/pyrdp/certificate.pem'')]"
    by auto
  from ascii first second show ?thesis
    by blast
qed

text \<open>
  With \<^verbatim>\<open>-k key.pem -c cert.pem\<close> and neither file on disk, \<^verbatim>\<open>reactor.listenTCP\<close> is called
  with these two paths and returns: \<^verbatim>\<open>main\<close> never looks at the files the user names.
\<close>

theorem main_listen_missing_files_counterexample:
  "main home_env
     (example_args\<lparr>args_private_key := Some ''key.pem'', args_certificate := Some ''cert.pem''\<rparr>)
     \<lparr>files = {}, trace = []\<rparr> =
   (Inr (),
    \<lparr>files = {''log/mitm.json'', ''log/mitm.log'', ''log''},
     trace = loggers_trace @
       [ListenTCP 3389
          \<lparr>targetHost = ''129.168.0.2'', targetPort = 3390,
           privateKeyFileName = ''key.pem'', certificateFileName = ''cert.pem'',
           destination_ip = None, destination_port = 3000,
           username = None, password = None\<rparr>,
        Log INFO ''MITM Server listening on port %(port)d'' [(''port'', IntArg 3389)],
        ReactorRun]\<rparr>)"
  by code_simp

text \<open>
  When \<^verbatim>\<open>openssl\<close> fails, \<^verbatim>\<open>handleKeyAndCertificates\<close> logs the failure and returns, and
  \<^verbatim>\<open>main\<close> goes on to call \<^verbatim>\<open>reactor.listenTCP\<close> with the two default paths, neither of
  which exists.
\<close>

lemma main_generation_failed_listens:
  "main home_env example_args \<lparr>files = {}, trace = []\<rparr> =
   (Inr (),
    \<lparr>files = {''/root/.config/pyrdp'', ''log/mitm.json'', ''log/mitm.log'', ''log''},
     trace = loggers_trace @
       [MakeDirs ''/root/.config/pyrdp'',
        Log INFO ''Generating a private key and certificate for SSL connections'' [],
        System (openssl_command ''/root/.config/pyrdp/private_key.pem''
                  ''/root/.config/pyrdp/certificate.pem''),
        Log ERROR
          ''Generation failed. Please provide the private key and certificate with -k and -c'' [],
        ListenTCP 3389 example_factory,
        Log INFO ''MITM Server listening on port %(port)d'' [(''port'', IntArg 3389)],
        ReactorRun]\<rparr>)"
  by code_simp

subsection \<open>Existing files are left alone\<close>

text \<open>
  Claim C10. When the key file and the certificate file both exist,
  \<^verbatim>\<open>handleKeyAndCertificates\<close> runs no command and leaves the files as they are; when one
  of them is missing it runs the \<^verbatim>\<open>openssl\<close> command of \<^verbatim>\<open>generateCertificate\<close>, once.
\<close>

theorem handleKeyAndCertificates_generation:
  "(key \<in> files w \<and> certificate \<in> files w \<longrightarrow>
      files (handleKeyAndCertificates e certificate key w) = files w \<and>
      filter is_system (trace (handleKeyAndCertificates e certificate key w)) =
        filter is_system (trace w))
   \<and> (\<not> (key \<in> files w \<and> certificate \<in> files w) \<longrightarrow>
      filter is_system (trace (handleKeyAndCertificates e certificate key w)) =
        filter is_system (trace w) @ [System (openssl_command key certificate)])"
  using handleKeyAndCertificates_missing_systems [of key w certificate e]
  by (auto simp: handleKeyAndCertificates_existing)

theorem handleKeyAndCertificates_generation_witness:
  "files (handleKeyAndCertificates home_env ''/root/.config/pyrdp/certificate.pem''
            ''/root/.config/pyrdp/private_key.pem'' home_world) = files home_world
   \<and> filter is_system
         (trace (handleKeyAndCertificates home_env ''/root/.config/pyrdp/certificate.pem''
            ''/root/.config/pyrdp/private_key.pem'' home_world)) = []
   \<and> filter is_system
         (trace (handleKeyAndCertificates home_env ''/root/.config/pyrdp/certificate.pem''
            ''/root/.config/pyrdp/private_key.pem''
            \<lparr>files = {''/root/.config/pyrdp'', ''/root/.config/pyrdp/private_key.pem''},
             trace = []\<rparr>)) =
       [System (openssl_command ''/root/.config/pyrdp/private_key.pem''
                  ''/root/.config/pyrdp/certificate.pem'')]"
proof -
  let ?k = "''/root/.config/pyrdp/private_key.pem''"
  let ?c = "''/root/.config/pyrdp/certificate.pem''"
  let ?w = "\<lparr>files = {''/root/.config/pyrdp'', ?k}, trace = []\<rparr>"
  have there: "?k \<in> files home_world \<and> ?c \<in> files home_world"
    by (simp add: home_world_def)
  have missing: "\<not> (?k \<in> files ?w \<and> ?c \<in> files ?w)"
    by simp
  have quiet: "filter is_system (trace home_world) = []" "filter is_system (trace ?w) = []"
    by (simp_all add: home_world_def)
  from handleKeyAndCertificates_generation [of ?k home_world ?c home_env]
    handleKeyAndCertificates_generation [of ?k ?w ?c home_env] there missing quiet
  show ?thesis
    by simp
qed

subsection \<open>The replacement credentials\<close>

text \<open>
  What the launcher does with \<^verbatim>\<open>-u\<close> and \<^verbatim>\<open>-p\<close>: \<^verbatim>\<open>buildProtocol\<close> hands the factory's
  username and password to the \<^verbatim>\<open>MITMServer\<close> constructor as they are. Either may be
  missing without the other.
\<close>

lemma buildProtocol_credentials:
  "replacementUsername (buildProtocol first_name self) = username self \<and>
   replacementPassword (buildProtocol first_name self) = password self"
  by (simp add: buildProtocol_def)


section \<open>Properties of the Relay Coordinator\<close>

subsection \<open>Every step keeps a session in one of the three kinds\<close>

lemma negotiating_new: "negotiating new_session"
  by (simp add: negotiating_def new_session_def new_leg_def)

lemma ended_terminate_negotiating:
  "negotiating s \<Longrightarrow> ended (terminate r s)"
  unfolding negotiating_def ended_def terminate_def legs_agree_def
  by auto

lemma ended_terminate_passing:
  "passing s \<Longrightarrow> ended (terminate r s)"
  unfolding passing_def ended_def terminate_def legs_agree_def
  by auto


lemma passing_pass_through: "passing s \<Longrightarrow> pass_through s"
  by (simp add: passing_def pass_through_def)

lemma negotiating_not_pass_through: "negotiating s \<Longrightarrow> \<not> pass_through s"
  by (simp add: negotiating_def pass_through_def)

lemma receive_pass_through:
  "pass_through s \<Longrightarrow> receive l p s = s \<or> receive l p s = terminate (Reject l) s"
  by (cases p) (simp_all add: receive_def)

lemma advance_cases:
  "advance st p = Some next \<Longrightarrow>
     (next = Connected \<and> (\<exists>caps. p = DemandActive caps)) \<or>
     (next \<noteq> Connected \<and> next \<noteq> Closed \<and> (\<forall>caps. p \<noteq> DemandActive caps))"
  by (cases "(st, p)" rule: advance.cases) simp_all

lemma record_parameters_capabilities:
  "\<forall>caps. p \<noteq> DemandActive caps \<Longrightarrow> capabilities (record_parameters p L) = capabilities L"
  by (cases p) simp_all

lemma record_parameters_state: "state (record_parameters p L) = state L"
  by (cases p) simp_all

lemma negotiating_advance:
  assumes "negotiating s" and "next \<noteq> Connected" and "next \<noteq> Closed"
    and "capabilities L = capabilities (leg_of s l)"
  shows "negotiating (set_leg l (L\<lparr>state := next\<rparr>) s)"
  using assms unfolding negotiating_def
  by (cases l) auto

lemma negotiating_wait:
  assumes "negotiating s" and "capabilities (leg_of s (other l)) = None"
    and "state L = state (leg_of s l)"
  shows "negotiating (set_leg l L s)"
  using assms unfolding negotiating_def
  by (cases l) auto

lemma passing_connect:
  assumes "negotiating s" and "capabilities (leg_of s (other l)) \<noteq> None"
    and "capabilities L \<noteq> None" and "legs_agree (set_leg l L s)"
  shows "passing (connect (set_leg l L s))"
  using assms unfolding negotiating_def passing_def connect_def legs_agree_def
  by (cases l) auto

lemma ended_mismatch:
  assumes "negotiating s"
  shows "ended (terminate NegotiationMismatch (set_leg l L s))"
  using assms unfolding negotiating_def ended_def terminate_def
  by (cases l) auto


lemma session_inv_receive_negotiating:
  assumes neg: "negotiating s"
  shows "session_inv (receive l p s)"
proof (cases "advance (state (leg_of s l)) p")
  case None
  with negotiating_not_pass_through [OF neg]
  have "receive l p s = terminate (Reject l) s"
    by (simp add: receive_def)
  with ended_terminate_negotiating [OF neg] show ?thesis
    by (simp add: session_inv_def)
next
  case (Some nxt)
  let ?L = "record_parameters p (leg_of s l)"
  from advance_cases [OF Some] show ?thesis
  proof
    assume last: "nxt = Connected \<and> (\<exists>caps. p = DemandActive caps)"
    then obtain caps where p: "p = DemandActive caps" by blast
    have caps: "capabilities ?L \<noteq> None" by (simp add: p)
    have r: "receive l p s =
        (if capabilities (leg_of (set_leg l ?L s) (other l)) = None then set_leg l ?L s
         else if legs_agree (set_leg l ?L s) then connect (set_leg l ?L s)
         else terminate NegotiationMismatch (set_leg l ?L s))"
      using negotiating_not_pass_through [OF neg] Some last
      by (simp add: receive_def Let_def)
    have o: "capabilities (leg_of (set_leg l ?L s) (other l)) = capabilities (leg_of s (other l))"
      by (cases l) simp_all
    show ?thesis
    proof (cases "capabilities (leg_of s (other l)) = None")
      case True
      from negotiating_wait [OF neg True record_parameters_state] r o True
      show ?thesis by (simp add: session_inv_def)
    next
      case False
      show ?thesis
      proof (cases "legs_agree (set_leg l ?L s)")
        case True
        from passing_connect [OF neg False caps True] r o False True
        show ?thesis by (simp add: session_inv_def)
      next
        case disagree: False
        from ended_mismatch [OF neg] r o False disagree
        show ?thesis by (simp add: session_inv_def)
      qed
    qed
  next
    assume mid: "nxt \<noteq> Connected \<and> nxt \<noteq> Closed \<and> (\<forall>caps. p \<noteq> DemandActive caps)"
    then have c: "capabilities ?L = capabilities (leg_of s l)"
      by (simp add: record_parameters_capabilities)
    have "receive l p s = set_leg l (?L\<lparr>state := nxt\<rparr>) s"
      using negotiating_not_pass_through [OF neg] Some mid
      by (simp add: receive_def)
    with negotiating_advance [OF neg _ _ c, of nxt] mid show ?thesis
      by (simp add: session_inv_def)
  qed
qed

lemma session_inv_receive_passing:
  assumes "passing s"
  shows "session_inv (receive l p s)"
  using receive_pass_through [OF passing_pass_through [OF assms], of l p]
    ended_terminate_passing [OF assms, of "Reject l"] assms
  by (auto simp: session_inv_def)

lemma ended_absorbing: "ended s \<Longrightarrow> coordinate s ev = s"
  by (auto simp: ended_def coordinate_def)

lemma session_inv_coordinate:
  assumes "session_inv s"
  shows "session_inv (coordinate s ev)"
proof -
  from assms consider "negotiating s" | "passing s" | "ended s"
    by (auto simp: session_inv_def)
  then show ?thesis
  proof cases
    case 1
    then have live: "termination_reason s = None" by (simp add: negotiating_def)
    show ?thesis
      using live session_inv_receive_negotiating [OF 1] ended_terminate_negotiating [OF 1]
      by (cases ev) (simp_all add: coordinate_def session_inv_def)
  next
    case 2
    then have live: "termination_reason s = None" by (simp add: passing_def)
    show ?thesis
      using live session_inv_receive_passing [OF 2] ended_terminate_passing [OF 2]
      by (cases ev) (simp_all add: coordinate_def session_inv_def)
  next
    case 3
    with ended_absorbing [OF 3] show ?thesis by (simp add: session_inv_def)
  qed
qed

lemma session_inv_run: "session_inv s \<Longrightarrow> session_inv (run s evs)"
  by (induction evs arbitrary: s) (simp_all add: session_inv_coordinate)

lemma session_inv_reachable: "session_inv (run new_session evs)"
  by (rule session_inv_run) (simp add: session_inv_def negotiating_new)

lemma run_append: "run s (xs @ ys) = run (run s xs) ys"
  by (induction xs arbitrary: s) simp_all

lemma run_ended: "termination_reason s \<noteq> None \<Longrightarrow> run s evs = s"
  by (induction evs) (simp_all add: coordinate_def)


lemma terminate_fields:
  "termination_reason (terminate r s) = Some r"
  "state (client_leg (terminate r s)) = Closed"
  "state (server_leg (terminate r s)) = Closed"
  by (simp_all add: terminate_def)

lemma stream_closed_ends:
  "StreamClosed l \<in> set evs \<Longrightarrow> termination_reason (run s evs) \<noteq> None"
proof (induction evs arbitrary: s)
  case Nil
  then show ?case by simp
next
  case (Cons ev evs)
  show ?case
  proof (cases "ev = StreamClosed l")
    case True
    then have "termination_reason (coordinate s ev) \<noteq> None"
      by (simp add: coordinate_def terminate_fields)
    then show ?thesis by (simp add: run_ended)
  next
    case False
    with Cons show ?thesis by simp
  qed
qed

lemma ended_closed:
  "session_inv s \<Longrightarrow> termination_reason s \<noteq> None \<Longrightarrow>
   state (client_leg s) = Closed \<and> state (server_leg s) = Closed"
  by (auto simp: session_inv_def negotiating_def passing_def ended_def)

lemma pass_through_agree:
  "session_inv s \<Longrightarrow> pass_through s \<Longrightarrow>
   legs_agree s \<and> capabilities (client_leg s) \<noteq> None"
  by (auto simp: session_inv_def negotiating_def passing_def ended_def pass_through_def)

lemma disagree_mismatch:
  "session_inv s \<Longrightarrow> capabilities (client_leg s) \<noteq> None \<Longrightarrow>
   capabilities (server_leg s) \<noteq> None \<Longrightarrow> \<not> legs_agree s \<Longrightarrow>
   termination_reason s = Some NegotiationMismatch"
  by (auto simp: session_inv_def negotiating_def passing_def ended_def)

lemma finalized_by_reason:
  "session_inv s \<Longrightarrow>
   finalized s =
     (case termination_reason s of
        None \<Rightarrow> []
      | Some r \<Rightarrow> [RecordReason r, FlushRecording, NotifyLiveStream])"
  by (auto simp: session_inv_def negotiating_def passing_def ended_def)

subsection \<open>Connection, agreement and finalization\<close>

text \<open>
  Claim C5. A session in pass-through mode has the same channel list, hence the same
  mapping from channel ids to names, and the same capability set on both legs. A session
  whose two legs have both completed their sequence with channel lists or capability
  sets that differ has ended with \<open>NegotiationMismatch\<close>, both legs closed, and is not in
  pass-through mode.
\<close>

theorem pass_through_requires_agreement:
  assumes "s = run new_session evs"
  shows "(pass_through s \<longrightarrow>
            channel_list (client_leg s) = channel_list (server_leg s) \<and>
            id_to_name (client_leg s) = id_to_name (server_leg s) \<and>
            capabilities (client_leg s) = capabilities (server_leg s) \<and>
            capabilities (client_leg s) \<noteq> None)
    \<and> (capabilities (client_leg s) \<noteq> None \<and> capabilities (server_leg s) \<noteq> None \<and>
          (channel_list (client_leg s) \<noteq> channel_list (server_leg s) \<or>
           capabilities (client_leg s) \<noteq> capabilities (server_leg s)) \<longrightarrow>
            termination_reason s = Some NegotiationMismatch \<and>
            state (client_leg s) = Closed \<and> state (server_leg s) = Closed \<and>
            \<not> pass_through s)"
proof -
  have inv: "session_inv s"
    unfolding assms by (rule session_inv_reachable)
  have agree: "pass_through s \<longrightarrow>
      channel_list (client_leg s) = channel_list (server_leg s) \<and>
      id_to_name (client_leg s) = id_to_name (server_leg s) \<and>
      capabilities (client_leg s) = capabilities (server_leg s) \<and>
      capabilities (client_leg s) \<noteq> None"
  proof
    assume "pass_through s"
    from pass_through_agree [OF inv this]
    have a: "legs_agree s" and some: "capabilities (client_leg s) \<noteq> None"
      by blast+
    from a have ch: "channel_list (client_leg s) = channel_list (server_leg s)"
      and ca: "capabilities (client_leg s) = capabilities (server_leg s)"
      by (simp_all add: legs_agree_def)
    from ch have "id_to_name (client_leg s) = id_to_name (server_leg s)"
      by (simp add: id_to_name_def)
    with ch ca some show "channel_list (client_leg s) = channel_list (server_leg s) \<and>
      id_to_name (client_leg s) = id_to_name (server_leg s) \<and>
      capabilities (client_leg s) = capabilities (server_leg s) \<and>
      capabilities (client_leg s) \<noteq> None"
      by blast
  qed
  have mismatch: "capabilities (client_leg s) \<noteq> None \<and> capabilities (server_leg s) \<noteq> None \<and>
      (channel_list (client_leg s) \<noteq> channel_list (server_leg s) \<or>
       capabilities (client_leg s) \<noteq> capabilities (server_leg s)) \<longrightarrow>
        termination_reason s = Some NegotiationMismatch \<and>
        state (client_leg s) = Closed \<and> state (server_leg s) = Closed \<and>
        \<not> pass_through s"
  proof
    assume d: "capabilities (client_leg s) \<noteq> None \<and> capabilities (server_leg s) \<noteq> None \<and>
          (channel_list (client_leg s) \<noteq> channel_list (server_leg s) \<or>
           capabilities (client_leg s) \<noteq> capabilities (server_leg s))"
    then have "\<not> legs_agree s" by (auto simp: legs_agree_def)
    with d disagree_mismatch [OF inv]
    have m: "termination_reason s = Some NegotiationMismatch" by blast
    with ended_closed [OF inv]
    have c: "state (client_leg s) = Closed \<and> state (server_leg s) = Closed"
      by simp
    then have "\<not> pass_through s" by (simp add: pass_through_def)
    with m c show "termination_reason s = Some NegotiationMismatch \<and>
        state (client_leg s) = Closed \<and> state (server_leg s) = Closed \<and>
        \<not> pass_through s" by simp
  qed
  from agree mismatch show ?thesis by (rule conjI)
qed

text \<open>
  Claim C7. The finalization steps taken in a session are none while it has no
  termination reason, and exactly one recording of the reason, one flush of the
  recording and one notice to the live-stream sink once it has one. A session one of
  whose legs was closed is terminated and has both legs closed; closing a leg of a live
  session terminates it with \<open>Disconnected\<close> for that leg; a terminated session is
  changed by no further event.
\<close>

theorem session_finalized_once:
  assumes "s = run new_session evs"
  shows "finalized s =
           (case termination_reason s of
              None \<Rightarrow> []
            | Some r \<Rightarrow> [RecordReason r, FlushRecording, NotifyLiveStream])
    \<and> ((\<exists>l. StreamClosed l \<in> set evs) \<longrightarrow>
          termination_reason s \<noteq> None \<and>
          state (client_leg s) = Closed \<and> state (server_leg s) = Closed)
    \<and> (termination_reason s = None \<longrightarrow>
          termination_reason (coordinate s (StreamClosed l)) = Some (Disconnected l) \<and>
          state (client_leg (coordinate s (StreamClosed l))) = Closed \<and>
          state (server_leg (coordinate s (StreamClosed l))) = Closed)
    \<and> (termination_reason s \<noteq> None \<longrightarrow> coordinate s ev = s)"
proof -
  have inv: "session_inv s"
    unfolding assms by (rule session_inv_reachable)
  have closed: "(\<exists>l. StreamClosed l \<in> set evs) \<longrightarrow> termination_reason s \<noteq> None"
    unfolding assms by (blast dest: stream_closed_ends)
  show ?thesis
    using finalized_by_reason [OF inv] ended_closed [OF inv] closed
    by (simp add: coordinate_def terminate_fields)
qed


theorem pass_through_requires_agreement_witness:
  "pass_through (run new_session (connection_sequence two_channels two_channels))
   \<and> id_to_name (client_leg (run new_session (connection_sequence two_channels two_channels)))
       = id_to_name (server_leg (run new_session (connection_sequence two_channels two_channels)))
   \<and> termination_reason (run new_session (connection_sequence two_channels (tl two_channels)))
       = Some NegotiationMismatch
   \<and> \<not> pass_through (run new_session (connection_sequence two_channels (tl two_channels)))"
proof -
  let ?same = "run new_session (connection_sequence two_channels two_channels)"
  let ?differ = "run new_session (connection_sequence two_channels (tl two_channels))"
  have p: "pass_through ?same"
    by code_simp
  have d: "capabilities (client_leg ?differ) \<noteq> None \<and>
           capabilities (server_leg ?differ) \<noteq> None \<and>
           (channel_list (client_leg ?differ) \<noteq> channel_list (server_leg ?differ) \<or>
            capabilities (client_leg ?differ) \<noteq> capabilities (server_leg ?differ))"
    by code_simp
  from pass_through_requires_agreement
         [where evs = "connection_sequence two_channels two_channels", OF refl]
       pass_through_requires_agreement
         [where evs = "connection_sequence two_channels (tl two_channels)", OF refl] p d
  show ?thesis
    by blast
qed

theorem session_finalized_once_witness:
  "finalized (run new_session
      (connection_sequence two_channels two_channels @
         [StreamClosed ClientLeg, StreamClosed ServerLeg]))
     = [RecordReason (Disconnected ClientLeg), FlushRecording, NotifyLiveStream]
   \<and> state (server_leg (run new_session
      (connection_sequence two_channels two_channels @
         [StreamClosed ClientLeg, StreamClosed ServerLeg]))) = Closed
   \<and> termination_reason
       (coordinate (run new_session (connection_sequence two_channels two_channels))
          (StreamClosed ClientLeg)) = Some (Disconnected ClientLeg)"
proof -
  let ?open = "connection_sequence two_channels two_channels"
  let ?evs = "?open @ [StreamClosed ClientLeg, StreamClosed ServerLeg]"
  have closed: "\<exists>l. StreamClosed l \<in> set ?evs"
    by auto
  have reason: "termination_reason (run new_session ?evs) = Some (Disconnected ClientLeg)"
    by code_simp
  have live: "termination_reason (run new_session ?open) = None"
    by code_simp
  from session_finalized_once [where evs = ?evs, OF refl]
       session_finalized_once [where evs = ?open and l = ClientLeg, OF refl]
       closed reason live
  show ?thesis
    by simp
qed

end
